theory Spec2Isabelle
  imports Complex_Main "HOL-Library.Word"
begin

unbundle bit_operations_syntax

section \<open>Linguist-Vision: the service layer (src/services/gemini.ts)\<close>

text \<open>
  The development embeds the TypeScript of \<^verbatim>\<open>src/services/gemini.ts\<close> and the submit
  handler of \<^verbatim>\<open>src/App.tsx\<close>. Promises are modelled by their outcome: a rejected
  promise (a \<^verbatim>\<open>throw\<close> inside an \<^verbatim>\<open>async\<close> function) is \<open>Inl\<close> of an error, a
  fulfilled one is \<open>Inr\<close> of its value, and a promise that never settles is \<open>None\<close>.
\<close>

subsection \<open>Values of the platform\<close>

text \<open>
  The errors the code can surface: the ones the JavaScript platform raises
  (\<open>RangeError\<close> from a typed-array constructor, \<open>InvalidCharacterError\<close> from
  \<^verbatim>\<open>atob\<close>, \<open>SyntaxError\<close> from \<^verbatim>\<open>JSON.parse\<close>, \<open>NotSupportedError\<close> and
  \<open>IndexSizeError\<close> from the audio context), the one the source throws itself
  (\<^verbatim>\<open>new Error(msg)\<close>), and a failure of a network call.
\<close>

datatype error =
    RangeError
  | InvalidCharacterError
  | SyntaxError
  | NotSupportedError
  | IndexSizeError
  | Error string
  | ServiceError string

text \<open>
  A JavaScript \<^verbatim>\<open>number\<close>, as far as this code can produce one: a finite value, \<open>NaN\<close>
  or \<open>+Infinity\<close>. Finite values are rationals. Every finite value the audio code
  computes is either a quotient of two array lengths or \<open>s / 32768\<close> for a 16-bit
  integer \<open>s\<close>; the latter is a dyadic rational with at most 16 significant bits, which
  binary64 and binary32 both hold exactly, so no rounding is lost by the model.
\<close>

datatype number = Num rat | NaN | Infinity

type_synonym byte = "8 word"
type_synonym int16 = "16 word"

text \<open>
  Reading and writing a typed array by index. Out of range, a read yields
  \<^verbatim>\<open>undefined\<close> (\<open>None\<close>) and a write is ignored; neither raises.
\<close>

definition typed_get :: "'a list \<Rightarrow> nat \<Rightarrow> 'a option" where
  "typed_get xs k = (if k < length xs then Some (xs ! k) else None)"

definition typed_set :: "'a list \<Rightarrow> nat \<Rightarrow> 'a \<Rightarrow> 'a list" where
  "typed_set xs k v = (if k < length xs then xs[k := v] else xs)"

text \<open>
  \<^verbatim>\<open>a / b\<close> for two array lengths or counts: division of numbers, not of integers.
  A zero divisor gives \<open>Infinity\<close>, and \<open>0 / 0\<close> gives \<open>NaN\<close>.
\<close>

definition divide_number :: "nat \<Rightarrow> nat \<Rightarrow> number" where
  "divide_number n c =
     (if c = 0 then (if n = 0 then NaN else Infinity)
      else Num (rat_of_nat n / rat_of_nat c))"

text \<open>
  \<^verbatim>\<open>x / 32768.0\<close> where \<open>x\<close> was read from an \<^verbatim>\<open>Int16Array\<close>: \<^verbatim>\<open>undefined\<close> divides
  to \<open>NaN\<close>, an element to its signed value over \<open>32768\<close>.
\<close>

definition divide_32768 :: "int16 option \<Rightarrow> number" where
  "divide_32768 x = (case x of None \<Rightarrow> NaN | Some s \<Rightarrow> Num (rat_of_int (sint s) / 32768))"

text \<open>
  The number of rounds of \<^verbatim>\<open>for (let i = 0; i < x; i++)\<close>: \<open>i < x\<close> holds for the
  naturals below the ceiling of a finite \<open>x\<close>, for none when \<open>x\<close> is \<open>NaN\<close>, and for all
  of them when \<open>x\<close> is \<open>Infinity\<close>, where the loop does not end (\<open>None\<close>).
\<close>

definition loop_rounds :: "number \<Rightarrow> nat option" where
  "loop_rounds x = (case x of Num q \<Rightarrow> Some (nat \<lceil>q\<rceil>) | NaN \<Rightarrow> Some 0 | Infinity \<Rightarrow> None)"

text \<open>A finite number without its fraction: truncation towards zero.\<close>

definition truncate_rat :: "rat \<Rightarrow> int" where
  "truncate_rat q = (if q < 0 then - \<lfloor>- q\<rfloor> else \<lfloor>q\<rfloor>)"

text \<open>
  The conversion of a number to Web IDL's \<^verbatim>\<open>unsigned long\<close>, which the audio context
  applies to the frame count it is given: \<open>NaN\<close> and the infinities become \<open>0\<close>, a finite
  value is truncated towards zero and reduced modulo \<open>2^32\<close>.
\<close>

definition ToUnsignedLong :: "number \<Rightarrow> nat" where
  "ToUnsignedLong x =
     (case x of
        Num q \<Rightarrow> nat (truncate_rat q mod 2 ^ 32)
      | NaN \<Rightarrow> 0
      | Infinity \<Rightarrow> 0)"

subsection \<open>Typed arrays and the audio buffer\<close>

text \<open>
  A \<^verbatim>\<open>Uint8Array\<close> is a view of \<open>length_u8\<close> bytes at \<open>byteOffset\<close> into its
  \<open>buffer\<close>. \<^verbatim>\<open>new Uint8Array(len)\<close> allocates a zeroed buffer of its own.
\<close>

record Uint8Array =
  buffer :: "byte list"
  byteOffset :: nat
  length_u8 :: nat

definition new_Uint8Array :: "nat \<Rightarrow> Uint8Array" where
  "new_Uint8Array len = \<lparr>buffer = replicate len 0, byteOffset = 0, length_u8 = len\<rparr>"

text \<open>
  \<^verbatim>\<open>new Int16Array(buffer)\<close> views the whole buffer as 16-bit signed integers, low
  byte first, and raises \<open>RangeError\<close> when the byte length is not a multiple of two.
\<close>

fun int16_elements :: "byte list \<Rightarrow> int16 list" where
  "int16_elements (lo # hi # rest) = (push_bit 8 (ucast hi) OR ucast lo) # int16_elements rest"
| "int16_elements _ = []"

definition new_Int16Array :: "byte list \<Rightarrow> error + int16 list" where
  "new_Int16Array bytes =
     (if even (length bytes) then Inr (int16_elements bytes) else Inl RangeError)"

text \<open>
  The audio context is the caller's: \<open>supported\<close> is its range check on the channel
  count, the frame count and the sample rate of a buffer it is asked for.
  \<^verbatim>\<open>createBuffer\<close> raises \<open>NotSupportedError\<close> outside that range and otherwise
  allocates one zeroed \<^verbatim>\<open>Float32Array\<close> per channel.
\<close>

record AudioContext =
  supported :: "nat \<Rightarrow> nat \<Rightarrow> rat \<Rightarrow> bool"

record AudioBuffer =
  numberOfChannels :: nat
  length_frames :: nat
  sampleRate :: rat
  channels :: "number list list"

definition createBuffer :: "AudioContext \<Rightarrow> nat \<Rightarrow> number \<Rightarrow> rat \<Rightarrow> error + AudioBuffer" where
  "createBuffer ctx numChannels frameCount rate =
     (let frames = ToUnsignedLong frameCount in
      if supported ctx numChannels frames rate
      then Inr \<lparr>numberOfChannels = numChannels, length_frames = frames, sampleRate = rate,
                channels = replicate numChannels (replicate frames (Num 0))\<rparr>
      else Inl NotSupportedError)"

text \<open>
  \<^verbatim>\<open>buffer.getChannelData(channel)\<close> hands out the channel's array itself, so a write to
  it is a write to the buffer: \<open>setChannelData\<close> stores the array back.
\<close>

definition getChannelData :: "AudioBuffer \<Rightarrow> nat \<Rightarrow> error + number list" where
  "getChannelData buf channel =
     (if channel < length (channels buf) then Inr (channels buf ! channel)
      else Inl IndexSizeError)"

definition setChannelData :: "AudioBuffer \<Rightarrow> nat \<Rightarrow> number list \<Rightarrow> AudioBuffer" where
  "setChannelData buf channel channelData =
     buf\<lparr>channels := (channels buf)[channel := channelData]\<rparr>"

subsection \<open>decodeAudioData\<close>

text \<open>
  The inner loop, \<^verbatim>\<open>channelData[i] = dataInt16[i * numChannels + channel] / 32768.0\<close>
  for \<open>i\<close> from \<open>0\<close>, run for a given number of rounds.
\<close>

definition frame_step :: "int16 list \<Rightarrow> nat \<Rightarrow> nat \<Rightarrow> nat \<Rightarrow> number list \<Rightarrow> number list" where
  "frame_step dataInt16 numChannels channel i channelData =
     typed_set channelData i (divide_32768 (typed_get dataInt16 (i * numChannels + channel)))"

definition for_frames :: "int16 list \<Rightarrow> nat \<Rightarrow> nat \<Rightarrow> nat \<Rightarrow> number list \<Rightarrow> number list" where
  "for_frames dataInt16 numChannels channel rounds channelData =
     fold (frame_step dataInt16 numChannels channel) [0..<rounds] channelData"

text \<open>The outer loop over the channels still to do; \<open>None\<close> when an inner loop never ends.\<close>

fun for_channels ::
  "int16 list \<Rightarrow> nat \<Rightarrow> number \<Rightarrow> nat list \<Rightarrow> AudioBuffer \<Rightarrow> (error + AudioBuffer) option" where
  "for_channels dataInt16 numChannels frameCount [] buf = Some (Inr buf)"
| "for_channels dataInt16 numChannels frameCount (channel # rest) buf =
     (case getChannelData buf channel of
        Inl e \<Rightarrow> Some (Inl e)
      | Inr channelData \<Rightarrow>
          (case loop_rounds frameCount of
             None \<Rightarrow> None
           | Some rounds \<Rightarrow>
               for_channels dataInt16 numChannels frameCount rest
                 (setChannelData buf channel
                    (for_frames dataInt16 numChannels channel rounds channelData))))"

definition decodeAudioData ::
  "Uint8Array \<Rightarrow> AudioContext \<Rightarrow> rat \<Rightarrow> nat \<Rightarrow> (error + AudioBuffer) option" where
  "decodeAudioData data ctx rate numChannels =
     (case new_Int16Array (buffer data) of
        Inl e \<Rightarrow> Some (Inl e)
      | Inr dataInt16 \<Rightarrow>
          (let frameCount = divide_number (length dataInt16) numChannels in
           case createBuffer ctx numChannels frameCount rate of
             Inl e \<Rightarrow> Some (Inl e)
           | Inr buf \<Rightarrow> for_channels dataInt16 numChannels frameCount [0..<numChannels] buf))"

section \<open>The generative service and its responses\<close>

subsection \<open>Data of src/types.ts\<close>

datatype Difficulty = Beginner | Intermediate | Advanced

datatype MediaType = Image | Video

text \<open>A \<open>Difficulty\<close> is the string of its name; a template literal prints it so.\<close>

fun difficulty_string :: "Difficulty \<Rightarrow> string" where
  "difficulty_string Beginner = ''Beginner''"
| "difficulty_string Intermediate = ''Intermediate''"
| "difficulty_string Advanced = ''Advanced''"

subsection \<open>Responses\<close>

text \<open>
  The fields the source reads of a response, each optional as the service's types
  declare them. \<open>text'\<close> is the response's \<^verbatim>\<open>text\<close>, \<open>done'\<close> the operation's
  \<^verbatim>\<open>done\<close>.
\<close>

record InlineData =
  data :: "string option"

record Part =
  inlineData :: "InlineData option"

record Content =
  parts :: "Part list option"

record Candidate =
  content :: "Content option"

record GenerateContentResponse =
  text' :: "string option"
  candidates :: "Candidate list option"

record VideoRef =
  uri :: "string option"

record GeneratedVideo =
  video :: "VideoRef option"

record GenerateVideosResponse =
  generatedVideos :: "GeneratedVideo list option"

record Operation =
  done' :: "bool option"
  response :: "GenerateVideosResponse option"

text \<open>
  \<^verbatim>\<open>xs?.[0]\<close> on a present array: its first element, \<^verbatim>\<open>undefined\<close> when it is empty.
  \<^verbatim>\<open>a || b\<close> on an optional string: \<open>b\<close> when \<open>a\<close> is \<^verbatim>\<open>undefined\<close> or empty. A template
  literal prints \<^verbatim>\<open>undefined\<close> by its name.
\<close>

fun first_element :: "'a list \<Rightarrow> 'a option" where
  "first_element [] = None"
| "first_element (x # xs) = Some x"

definition or_else :: "string option \<Rightarrow> string \<Rightarrow> string" where
  "or_else a b = (case a of None \<Rightarrow> b | Some s \<Rightarrow> if s = [] then b else s)"

definition template :: "string option \<Rightarrow> string" where
  "template a = (case a of None \<Rightarrow> ''undefined'' | Some s \<Rightarrow> s)"

text \<open>\<^verbatim>\<open>response.candidates?.[0]?.content?.parts\<close>\<close>

definition first_candidate_parts :: "GenerateContentResponse \<Rightarrow> Part list option" where
  "first_candidate_parts r =
     Option.bind (Option.bind (Option.bind (candidates r) first_element) content) parts"

text \<open>\<^verbatim>\<open>operation.response?.generatedVideos?.[0]?.video?.uri\<close>\<close>

definition video_uri :: "Operation \<Rightarrow> string option" where
  "video_uri operation =
     Option.bind
       (Option.bind (Option.bind (Option.bind (response operation) generatedVideos) first_element)
          video)
       uri"

subsection \<open>The environment\<close>

text \<open>
  What the source asks of the service. The wording of the two long prompts is not
  modelled: a request carries the model it is sent to (by its constructor) and the
  values the source interpolates into the prompt. \<open>ScenePrompt\<close> is the request for a
  scene description (difficulty, topic, specific context), \<open>ImagePrompt\<close> the image
  request (its one text part), \<open>EvaluatePrompt\<close> the evaluation (original prompt, user
  description, level context) and \<open>SpeechPrompt\<close> the speech request (its text part).
\<close>

datatype Request =
    ScenePrompt Difficulty string string
  | ImagePrompt string
  | EvaluatePrompt string string string
  | SpeechPrompt string

text \<open>A parsed JSON value.\<close>

datatype json =
    JNull
  | JBool bool
  | JNumber rat
  | JString string
  | JArray "json list"
  | JObject "(string \<times> json) list"

type_synonym Blob = "byte list"

text \<open>
  The environment of a call: the credential, the service's answers and the platform
  functions whose results the source passes on. Each answer is a value or the error the
  call raises. \<open>getVideosOperation env k\<close> is the answer to the \<open>k\<close>-th status request
  (the service's state moves between requests), \<open>randomId\<close> and \<open>now\<close> are what
  \<^verbatim>\<open>Math.random().toString(36).substr(2, 9)\<close> and \<^verbatim>\<open>Date.now()\<close> give.
\<close>

record Env =
  API_KEY :: "string option"
  generateContent :: "Request \<Rightarrow> error + GenerateContentResponse"
  generateVideos :: "string \<Rightarrow> error + Operation"
  getVideosOperation :: "nat \<Rightarrow> Operation \<Rightarrow> error + Operation"
  fetch :: "string \<Rightarrow> error + Blob"
  createObjectURL :: "Blob \<Rightarrow> string"
  JSON_parse :: "string \<Rightarrow> error + json"
  randomId :: string
  now :: nat

text \<open>What a call does that the outside can see, in order.\<close>

datatype event =
    GenerateContent Request
  | GenerateVideos string
  | Delay nat
  | GetVideosOperation Operation
  | Fetch string
  | CreateObjectURL Blob

subsection \<open>generateLessonPrompt\<close>

definition newline :: char where
  "newline = CHR 0x0A"

definition BA_CONTEXT :: string where
  "BA_CONTEXT = concat
     [''Focus on professional Business Analyst activities: '', [newline],
      ''    1. Requirement Elicitation & Management (Backlog, User Stories, DEEP, MoSCoW, Traceability Matrix).'', [newline],
      ''    2. Stakeholder Management (RACI Model, Onion Diagrams, Matrix).'', [newline],
      ''    3. Process Flow Modeling (BPMN, Value Stream Mapping, Swim lanes).'', [newline],
      ''    4. Solution & Evaluation Management (KPIs, Cost-Benefit Analysis, ROI, Feasibility, Acceptance Criteria).'', [newline],
      ''    Describe a vivid workspace scene where a BA is presenting or analyzing one of these artifacts.'']"

definition specificContext :: "string \<Rightarrow> string" where
  "specificContext topic = (if topic = ''Business Analysis'' then BA_CONTEXT else [])"

definition FALLBACK_PROMPT :: string where
  "FALLBACK_PROMPT =
     ''A professional office scene showing a business analyst working on project requirements.''"

text \<open>\<^verbatim>\<open>promptRequest.text || `A professional office scene ...`\<close>\<close>

definition visualPrompt :: "GenerateContentResponse \<Rightarrow> string" where
  "visualPrompt promptRequest = or_else (text' promptRequest) FALLBACK_PROMPT"

text \<open>
  The loop over the parts of the image response: the first part with inline data sets
  the URL and breaks.
\<close>

fun image_loop :: "Part list \<Rightarrow> string \<Rightarrow> string" where
  "image_loop [] imageUrl = imageUrl"
| "image_loop (part # rest) imageUrl =
     (case inlineData part of
        Some d \<Rightarrow> ''data:image/png;base64,'' @ template (data d)
      | None \<Rightarrow> image_loop rest imageUrl)"

text \<open>\<^verbatim>\<open>response.candidates?.[0]?.content?.parts || []\<close>\<close>

definition response_parts :: "GenerateContentResponse \<Rightarrow> Part list" where
  "response_parts r = (case first_candidate_parts r of None \<Rightarrow> [] | Some ps \<Rightarrow> ps)"

definition imageUrl_of :: "GenerateContentResponse \<Rightarrow> string" where
  "imageUrl_of r = image_loop (response_parts r) []"

text \<open>
  The polling loop \<^verbatim>\<open>while (!operation.done)\<close>: wait ten seconds, ask for the operation
  again. \<open>k\<close> counts the status requests made so far and \<open>tr\<close> is the trace so far. An
  error of the status request ends the call. The loop has no other exit: when no answer
  ever reports completion it does not return.
\<close>

partial_function (option) poll ::
  "Env \<Rightarrow> nat \<Rightarrow> Operation \<Rightarrow> event list \<Rightarrow> (event list \<times> (error + Operation)) option" where
  "poll env k operation tr =
     (if done' operation \<noteq> Some True then
        (case getVideosOperation env k operation of
           Inl e \<Rightarrow> Some (tr @ [Delay 10000, GetVideosOperation operation], Inl e)
         | Inr operation' \<Rightarrow>
             poll env (Suc k) operation' (tr @ [Delay 10000, GetVideosOperation operation]))
      else Some (tr, Inr operation))"

text \<open>
  The events of \<open>n\<close> rounds of the loop from request \<open>j\<close> on, when \<open>ops k\<close> is the
  operation the \<open>k\<close>-th round starts with.
\<close>

definition poll_trace :: "(nat \<Rightarrow> Operation) \<Rightarrow> nat \<Rightarrow> nat \<Rightarrow> event list" where
  "poll_trace ops j n = concat (map (\<lambda>k. [Delay 10000, GetVideosOperation (ops k)]) [j..<j + n])"

record LessonResult =
  url :: string
  promptText :: string

text \<open>\<^verbatim>\<open>`${downloadLink}&key=${process.env.API_KEY}`\<close>\<close>

definition download_url :: "Env \<Rightarrow> Operation \<Rightarrow> string" where
  "download_url env operation = template (video_uri operation) @ ''&key='' @ template (API_KEY env)"

definition video_branch ::
  "Env \<Rightarrow> string \<Rightarrow> event list \<Rightarrow> (event list \<times> (error + LessonResult)) option" where
  "video_branch env prompt tr =
     (case generateVideos env prompt of
        Inl e \<Rightarrow> Some (tr @ [GenerateVideos prompt], Inl e)
      | Inr operation \<Rightarrow>
          (case poll env 0 operation (tr @ [GenerateVideos prompt]) of
             None \<Rightarrow> None
           | Some (tr', Inl e) \<Rightarrow> Some (tr', Inl e)
           | Some (tr', Inr finished) \<Rightarrow>
               (let link = download_url env finished in
                case fetch env link of
                  Inl e \<Rightarrow> Some (tr' @ [Fetch link], Inl e)
                | Inr blob \<Rightarrow>
                    Some (tr' @ [Fetch link, CreateObjectURL blob],
                          Inr \<lparr>url = createObjectURL env blob, promptText = prompt\<rparr>))))"

definition image_branch ::
  "Env \<Rightarrow> string \<Rightarrow> event list \<Rightarrow> (event list \<times> (error + LessonResult)) option" where
  "image_branch env prompt tr =
     (case generateContent env (ImagePrompt prompt) of
        Inl e \<Rightarrow> Some (tr @ [GenerateContent (ImagePrompt prompt)], Inl e)
      | Inr r \<Rightarrow>
          Some (tr @ [GenerateContent (ImagePrompt prompt)],
                Inr \<lparr>url = imageUrl_of r, promptText = prompt\<rparr>))"

definition generateLessonPrompt ::
  "Env \<Rightarrow> string \<Rightarrow> Difficulty \<Rightarrow> MediaType \<Rightarrow> (event list \<times> (error + LessonResult)) option" where
  "generateLessonPrompt env topic difficulty type =
     (let request = ScenePrompt difficulty topic (specificContext topic) in
      case generateContent env request of
        Inl e \<Rightarrow> Some ([GenerateContent request], Inl e)
      | Inr promptRequest \<Rightarrow>
          (case type of
             Image \<Rightarrow> image_branch env (visualPrompt promptRequest) [GenerateContent request]
           | Video \<Rightarrow> video_branch env (visualPrompt promptRequest) [GenerateContent request]))"

text \<open>
  The event by which the media step hands its prompt to the service, and the events
  that are such a request for a given prompt.
\<close>

definition media_request :: "MediaType \<Rightarrow> string \<Rightarrow> event" where
  "media_request type prompt =
     (case type of Image \<Rightarrow> GenerateContent (ImagePrompt prompt) | Video \<Rightarrow> GenerateVideos prompt)"

definition is_media_request :: "event \<Rightarrow> string \<Rightarrow> bool" where
  "is_media_request ev prompt \<longleftrightarrow>
     ev = GenerateContent (ImagePrompt prompt) \<or> ev = GenerateVideos prompt"

subsection \<open>evaluateDescription\<close>

definition levelContext :: "Difficulty \<Rightarrow> string" where
  "levelContext difficulty =
     (if difficulty = Intermediate
      then ''B1 level (CEFR). Focus on phrasal verbs and descriptive adjectives.''
      else difficulty_string difficulty @ '' level.'')"

text \<open>\<^verbatim>\<open>return JSON.parse(response.text || '{}')\<close>\<close>

definition evaluateDescription :: "Env \<Rightarrow> string \<Rightarrow> string \<Rightarrow> Difficulty \<Rightarrow> error + json" where
  "evaluateDescription env userDescription originalPrompt difficulty =
     (case generateContent env
             (EvaluatePrompt originalPrompt userDescription (levelContext difficulty)) of
        Inl e \<Rightarrow> Inl e
      | Inr r \<Rightarrow> JSON_parse env (or_else (text' r) ''{}''))"

text \<open>
  The fields the response schema of the evaluation request lists as required, and
  whether a parsed value is an object that has them all.
\<close>

definition has_required_fields :: "json \<Rightarrow> bool" where
  "has_required_fields v =
     (case v of
        JObject members \<Rightarrow>
          list_all (\<lambda>k. k \<in> fst ` set members)
            [''score'', ''corrections'', ''vocabularySuggestions'', ''overallComment'',
             ''modelSampleDescription'']
      | _ \<Rightarrow> False)"

subsection \<open>generateSpeech\<close>

text \<open>\<^verbatim>\<open>response.candidates?.[0]?.content?.parts?.[0]?.inlineData?.data\<close>\<close>

definition base64Audio_of :: "GenerateContentResponse \<Rightarrow> string option" where
  "base64Audio_of r =
     Option.bind
       (Option.bind (Option.bind (first_candidate_parts r) first_element) inlineData)
       data"

text \<open>
  \<^verbatim>\<open>if (!base64Audio) throw new Error("No audio data received")\<close>: the negation holds of
  \<^verbatim>\<open>undefined\<close> and of the empty string.
\<close>

definition generateSpeech :: "Env \<Rightarrow> string \<Rightarrow> error + string" where
  "generateSpeech env txt =
     (case generateContent env (SpeechPrompt (''Say professionally: '' @ txt)) of
        Inl e \<Rightarrow> Inl e
      | Inr r \<Rightarrow>
          (case base64Audio_of r of
             None \<Rightarrow> Inl (Error ''No audio data received'')
           | Some base64Audio \<Rightarrow>
               if base64Audio = [] then Inl (Error ''No audio data received'')
               else Inr base64Audio))"

section \<open>The submit handler (src/App.tsx)\<close>

text \<open>
  \<open>LessonPrompt\<close> and \<open>HistoryItem\<close> of \<^verbatim>\<open>src/types.ts\<close>; a field whose name is taken
  carries a prefix. The declared type of a history item's feedback is \<^verbatim>\<open>Feedback\<close>, but
  the value stored is what \<open>evaluateDescription\<close> returned, a parsed JSON value.
\<close>

record LessonPrompt =
  prompt_id :: string
  prompt_type :: MediaType
  prompt_url :: string
  description :: string
  prompt_topic :: string
  prompt_difficulty :: Difficulty

record HistoryItem =
  item_id :: string
  prompt :: LessonPrompt
  userDescription :: string
  feedback :: json
  timestamp :: nat

text \<open>
  The state variables of the component that the handler reads or sets (\<open>feedback'\<close> is
  the state variable \<^verbatim>\<open>feedback\<close>), and whether a speech recogniser exists.
\<close>

record AppState =
  difficulty :: Difficulty
  isLoading :: bool
  statusMessage :: string
  currentPrompt :: "LessonPrompt option"
  userText :: string
  feedback' :: "json option"
  history :: "HistoryItem list"
  isRecording :: bool
  recognitionRef :: bool

datatype effect = RecognitionStop | ConsoleError error | Alert string

text \<open>
  \<^verbatim>\<open>s.trim()\<close>: the string without its leading and trailing white space and line
  terminators, which among the characters below \<open>256\<close> are tab, line feed, vertical tab,
  form feed, carriage return, space and the no-break space.
\<close>

definition is_space :: "char \<Rightarrow> bool" where
  "is_space c \<longleftrightarrow>
     c \<in> set [CHR 0x09, CHR 0x0A, CHR 0x0B, CHR 0x0C, CHR 0x0D, CHR 0x20, CHR 0xA0]"

definition trim :: "string \<Rightarrow> string" where
  "trim s = rev (dropWhile is_space (rev (dropWhile is_space s)))"

text \<open>
  \<open>handleSubmitDescription\<close>: nothing happens without a prompt or with a blank text;
  otherwise the description is evaluated and, when that succeeds, the result is shown
  and a new item is put in front of the history. A failure is logged and reported.
\<close>

definition handleSubmitDescription :: "Env \<Rightarrow> AppState \<Rightarrow> AppState \<times> effect list" where
  "handleSubmitDescription env s =
     (case currentPrompt s of
        None \<Rightarrow> (s, [])
      | Some p \<Rightarrow>
          if trim (userText s) = [] then (s, [])
          else
            (let stop = (if isRecording s \<and> recognitionRef s then [RecognitionStop] else []);
                 s1 = s\<lparr>isLoading := True,
                        statusMessage :=
                          ''Analyzing your '' @ difficulty_string (difficulty s) @ '' English...''\<rparr>
             in case evaluateDescription env (userText s) (description p) (difficulty s) of
                  Inr result \<Rightarrow>
                    (s1\<lparr>feedback' := Some result,
                        history :=
                          \<lparr>item_id = randomId env, prompt = p, userDescription = userText s,
                           feedback = result, timestamp = now env\<rparr> # history s1,
                        isLoading := False\<rparr>,
                     stop)
                | Inl e \<Rightarrow>
                    (s1\<lparr>isLoading := False\<rparr>,
                     stop @ [ConsoleError e, Alert ''Evaluation failed. Please try again.''])))"

text \<open>
  The score of a stored feedback, \<^verbatim>\<open>item.feedback.score\<close>, and whether it is a number
  from \<open>0\<close> to \<open>100\<close>.
\<close>

definition score_of :: "json \<Rightarrow> json option" where
  "score_of v = (case v of JObject members \<Rightarrow> map_of members ''score'' | _ \<Rightarrow> None)"

definition score_bounded :: "json \<Rightarrow> bool" where
  "score_bounded v = (case score_of v of Some (JNumber q) \<Rightarrow> 0 \<le> q \<and> q \<le> 100 | _ \<Rightarrow> False)"


section \<open>Base64 and decodeBase64\<close>

subsection \<open>atob\<close>

text \<open>
  \<^verbatim>\<open>atob\<close> is the platform's: the forgiving base64 decoding of the HTML standard. White
  space is removed; when the length is then a multiple of four, one or two closing
  \<open>=\<close> are removed; a length of one more than a multiple of four and any character
  outside the alphabet fail with \<open>InvalidCharacterError\<close>; the characters are read as
  six bits each, three bytes from every four characters, and the bits left over at the
  end (four after two characters, two after three) are dropped. The result is a string
  of one character per byte.
\<close>

definition base64_alphabet :: string where
  "base64_alphabet = ''ABCDEFGHIJKLMNOPQRSTUVWXYZabcdefghijklmnopqrstuvwxyz0123456789+/''"

definition is_ascii_whitespace :: "char \<Rightarrow> bool" where
  "is_ascii_whitespace c \<longleftrightarrow> c \<in> set [CHR 0x09, CHR 0x0A, CHR 0x0C, CHR 0x0D, CHR 0x20]"

definition strip_padding :: "string \<Rightarrow> string" where
  "strip_padding s =
     (if length s mod 4 = 0 then
        (case rev s of
           c1 # c2 # r \<Rightarrow>
             if c1 = CHR ''='' \<and> c2 = CHR ''='' then rev r
             else if c1 = CHR ''='' then rev (c2 # r)
             else s
         | _ \<Rightarrow> s)
      else s)"

definition sextet :: "char \<Rightarrow> nat" where
  "sextet c = length (takeWhile (\<lambda>x. x \<noteq> c) base64_alphabet)"

fun decode_sextets :: "nat list \<Rightarrow> string" where
  "decode_sextets (a # b # c # d # rest) =
     (let n = ((a * 64 + b) * 64 + c) * 64 + d
      in char_of (n div 65536) # char_of (n div 256 mod 256) # char_of (n mod 256) #
         decode_sextets rest)"
| "decode_sextets [a, b, c] =
     (let n = ((a * 64 + b) * 64 + c) div 4 in [char_of (n div 256), char_of (n mod 256)])"
| "decode_sextets [a, b] = [char_of ((a * 64 + b) div 16)]"
| "decode_sextets _ = []"

definition atob :: "string \<Rightarrow> error + string" where
  "atob input =
     (let d = strip_padding (filter (\<lambda>c. \<not> is_ascii_whitespace c) input) in
      if length d mod 4 = 1 then Inl InvalidCharacterError
      else if list_ex (\<lambda>c. c \<notin> set base64_alphabet) d then Inl InvalidCharacterError
      else Inr (decode_sextets (map sextet d)))"

subsection \<open>decodeBase64\<close>

text \<open>
  \<^verbatim>\<open>s.charCodeAt(i)\<close> is the code of the character at \<open>i\<close>, \<open>NaN\<close> (\<open>None\<close>) out of range.
  \<^verbatim>\<open>bytes[i] = v\<close> stores \<open>v\<close> modulo \<open>256\<close> (\<open>0\<close> for \<open>NaN\<close>) at \<open>i\<close> of the view, and is
  ignored out of range.
\<close>

definition charCodeAt :: "string \<Rightarrow> nat \<Rightarrow> nat option" where
  "charCodeAt s i = (if i < length s then Some (of_char (s ! i)) else None)"

definition set_u8 :: "Uint8Array \<Rightarrow> nat \<Rightarrow> nat option \<Rightarrow> Uint8Array" where
  "set_u8 arr i v =
     (if i < length_u8 arr
      then arr\<lparr>buffer := (buffer arr)[byteOffset arr + i :=
                  (case v of None \<Rightarrow> 0 | Some n \<Rightarrow> of_nat n)]\<rparr>
      else arr)"

definition decodeBase64 :: "string \<Rightarrow> error + Uint8Array" where
  "decodeBase64 base64 =
     (case atob base64 of
        Inl e \<Rightarrow> Inl e
      | Inr binaryString \<Rightarrow>
          (let len = length binaryString;
               bytes = new_Uint8Array len
           in Inr (fold (\<lambda>i bytes. set_u8 bytes i (charCodeAt binaryString i)) [0..<len] bytes)))"

subsection \<open>An encoder for the round trip\<close>

text \<open>
  The repository decodes audio and never encodes it; the specification names an
  encoder only in its round-trip property ("encoding N known float samples to 16-bit
  PCM"). The definitions of this subsection are that encoder, the inverse of the decode
  pipeline step by step.
\<close>

text \<open>
  Modelled from the spec: the 16-bit PCM value of a float sample, which the repository
  has no function for. The sample is scaled by \<open>32768\<close>, the divisor of the pipeline's
  normalisation, and stored as a 16-bit integer, truncated towards zero as an
  \<^verbatim>\<open>Int16Array\<close> stores a number.
\<close>

definition encodePCM16 :: "rat \<Rightarrow> int16" where
  "encodePCM16 x = word_of_int (truncate_rat (x * 32768))"

text \<open>
  Modelled from the spec: the byte layout of 16-bit samples, little-endian ("16-bit
  signed little-endian samples"), which the repository has no writer for.
\<close>

definition pcm16_bytes :: "int16 list \<Rightarrow> byte list" where
  "pcm16_bytes samples = concat (map (\<lambda>s. [ucast s, ucast (drop_bit 8 s)]) samples)"

text \<open>
  Modelled from the spec: the six-bit groups of a byte sequence, for the base64 text
  the pipeline takes as input ("base64 inputs representing N 16-bit samples"); the
  repository has no base64 encoder. Three bytes give four groups; a last group of two
  bytes or one byte is filled with zero bits to three or two groups.
\<close>

fun sextets_of :: "byte list \<Rightarrow> nat list" where
  "sextets_of (a # b # c # rest) =
     (let n = unat a * 65536 + unat b * 256 + unat c
      in n div 262144 # n div 4096 mod 64 # n div 64 mod 64 # n mod 64 # sextets_of rest)"
| "sextets_of [a, b] =
     (let n = (unat a * 256 + unat b) * 4 in [n div 4096, n div 64 mod 64, n mod 64])"
| "sextets_of [a] = (let n = unat a * 16 in [n div 64, n mod 64])"
| "sextets_of [] = []"

text \<open>
  Modelled from the spec: the base64 text of a byte sequence, which the repository has
  no encoder for: the characters of the six-bit groups, padded with \<open>=\<close> to a multiple
  of four characters.
\<close>

definition btoa :: "byte list \<Rightarrow> string" where
  "btoa bytes =
     map (\<lambda>k. base64_alphabet ! k) (sextets_of bytes) @
     replicate ((3 - length bytes mod 3) mod 3) (CHR ''='')"

text \<open>
  Modelled from the spec: the encoding of float samples that the round-trip property
  starts from ("encoding N known float samples to 16-bit PCM"), absent from the
  repository: each sample as 16-bit PCM, the bytes in base64.
\<close>

definition encodeAudio :: "rat list \<Rightarrow> string" where
  "encodeAudio xs = btoa (pcm16_bytes (map encodePCM16 xs))"


section \<open>Example environments\<close>

text \<open>
  A scripted service for the concrete runs below. It answers the scene request with a
  given text, the image and the speech request with given responses and the evaluation
  request with a given text; its video job is pending for three checks and done at the
  fourth; its \<^verbatim>\<open>JSON.parse\<close> knows three texts.
\<close>

definition SCORE_150 :: string where
  "SCORE_150 = ''{'' @ [CHR 0x22] @ ''score'' @ [CHR 0x22] @ '':150}''"

definition SCORE_85 :: string where
  "SCORE_85 = ''{'' @ [CHR 0x22] @ ''score'' @ [CHR 0x22] @ '':85}''"

definition example_parse :: "string \<Rightarrow> error + json" where
  "example_parse s =
     (if s = ''{}'' then Inr (JObject [])
      else if s = SCORE_150 then Inr (JObject [(''score'', JNumber 150)])
      else if s = SCORE_85 then Inr (JObject [(''score'', JNumber 85)])
      else Inl SyntaxError)"

definition example_operation :: "nat \<Rightarrow> Operation" where
  "example_operation k =
     (if k < 3 then \<lparr>done' = (if k = 0 then None else Some False), response = None\<rparr>
      else \<lparr>done' = Some True,
            response = Some \<lparr>generatedVideos =
              Some [\<lparr>video = Some \<lparr>uri = Some ''https://video.test/1?alt=media''\<rparr>\<rparr>]\<rparr>\<rparr>)"

definition example_answer ::
  "string option \<Rightarrow> GenerateContentResponse \<Rightarrow> string option \<Rightarrow> GenerateContentResponse \<Rightarrow>
   Request \<Rightarrow> error + GenerateContentResponse" where
  "example_answer scene_text image_response evaluation_text speech_response request =
     (case request of
        ScenePrompt d t c \<Rightarrow> Inr \<lparr>text' = scene_text, candidates = None\<rparr>
      | ImagePrompt p \<Rightarrow> Inr image_response
      | EvaluatePrompt p u l \<Rightarrow> Inr \<lparr>text' = evaluation_text, candidates = None\<rparr>
      | SpeechPrompt t \<Rightarrow> Inr speech_response)"

definition example_env :: "(Request \<Rightarrow> error + GenerateContentResponse) \<Rightarrow> Env" where
  "example_env answer =
     \<lparr>API_KEY = Some ''KEY'',
      generateContent = answer,
      generateVideos = (\<lambda>p. Inr (example_operation 0)),
      getVideosOperation = (\<lambda>k operation. Inr (example_operation (Suc k))),
      fetch = (\<lambda>link. Inr [1, 2, 3]),
      createObjectURL = (\<lambda>blob. ''blob:1''),
      JSON_parse = example_parse,
      randomId = ''k3j9x0q2a'',
      now = 1700000000000\<rparr>"

definition no_candidates :: GenerateContentResponse where
  "no_candidates = \<lparr>text' = None, candidates = None\<rparr>"

definition response_with_parts :: "Part list \<Rightarrow> GenerateContentResponse" where
  "response_with_parts ps =
     \<lparr>text' = None, candidates = Some [\<lparr>content = Some \<lparr>parts = Some ps\<rparr>\<rparr>]\<rparr>"

definition inline_part :: "string \<Rightarrow> Part" where
  "inline_part d = \<lparr>inlineData = Some \<lparr>data = Some d\<rparr>\<rparr>"

definition text_part :: Part where
  "text_part = \<lparr>inlineData = None\<rparr>"

definition example_prompt :: LessonPrompt where
  "example_prompt =
     \<lparr>prompt_id = ''a1b2c3d4e'', prompt_type = Image, prompt_url = ''data:image/png;base64,AAAA'',
      description = ''A forest at dawn'', prompt_topic = ''Nature'', prompt_difficulty = Beginner\<rparr>"

definition example_state :: AppState where
  "example_state =
     \<lparr>difficulty = Beginner, isLoading = False, statusMessage = [],
      currentPrompt = Some example_prompt, userText = ''Trees in the mist'',
      feedback' = None, history = [], isRecording = False, recognitionRef = True\<rparr>"

text \<open>
  An audio context that rejects a buffer of no channel, of no frame or of a sample rate
  that is not positive, as the Web Audio API requires of \<^verbatim>\<open>createBuffer\<close>
  (\<open>NotSupportedError\<close> for an argument that is negative or zero), and accepts every
  other.
\<close>

definition web_audio_context :: AudioContext where
  "web_audio_context = \<lparr>supported = (\<lambda>c n r. 1 \<le> c \<and> 1 \<le> n \<and> 0 < r)\<rparr>"


section \<open>Properties of the audio decode pipeline\<close>

subsection \<open>The loops of decodeAudioData\<close>

text \<open>
  An \<^verbatim>\<open>Int16Array\<close> over \<open>2 * N\<close> bytes has \<open>N\<close> elements. The inner loop keeps the
  length of the channel array and overwrites exactly the frames below its number of
  rounds that exist; the outer loop does so for each channel once.
\<close>

lemma int16_elements_nth:
  "k < length bs div 2 \<Longrightarrow>
   int16_elements bs ! k = push_bit 8 (ucast (bs ! (2 * k + 1))) OR ucast (bs ! (2 * k))"
proof (induction bs arbitrary: k rule: int16_elements.induct)
  case (1 lo hi rest)
  then show ?case by (cases k) simp_all
qed simp_all

lemma length_int16_elements: "length (int16_elements bs) = length bs div 2"
  by (induction bs rule: int16_elements.induct) simp_all

lemma length_frame_step: "length (frame_step d C ch i cd) = length cd"
  by (simp add: frame_step_def typed_set_def)

lemma for_frames_Suc:
  "for_frames d C ch (Suc n) cd = frame_step d C ch n (for_frames d C ch n cd)"
  by (simp add: for_frames_def)

lemma length_for_frames: "length (for_frames d C ch n cd) = length cd"
  by (induction n) (simp_all add: for_frames_Suc length_frame_step, simp add: for_frames_def)

lemma nth_for_frames:
  "i < length cd \<Longrightarrow>
   for_frames d C ch n cd ! i =
     (if i < n then divide_32768 (typed_get d (i * C + ch)) else cd ! i)"
proof (induction n)
  case 0
  then show ?case by (simp add: for_frames_def)
next
  case (Suc n)
  then show ?case
    by (auto simp: for_frames_Suc frame_step_def typed_set_def length_for_frames
        nth_list_update less_Suc_eq)
qed

lemma for_channels_result:
  assumes "loop_rounds fc = Some n"
    and "\<forall>c\<in>set cs. c < length (channels buf)"
    and "distinct cs"
  shows "\<exists>buf'. for_channels d C fc cs buf = Some (Inr buf') \<and>
           length (channels buf') = length (channels buf) \<and>
           (\<forall>c < length (channels buf). channels buf' ! c =
              (if c \<in> set cs then for_frames d C c n (channels buf ! c) else channels buf ! c))"
  using assms
proof (induction cs arbitrary: buf)
  case Nil
  then show ?case by simp
next
  case (Cons c cs)
  let ?b = "setChannelData buf c (for_frames d C c n (channels buf ! c))"
  have len: "length (channels ?b) = length (channels buf)"
    by (simp add: setChannelData_def)
  have step: "for_channels d C fc (c # cs) buf = for_channels d C fc cs ?b"
    using Cons.prems by (simp add: getChannelData_def)
  from Cons.prems have "\<forall>c'\<in>set cs. c' < length (channels ?b)" "distinct cs"
    by (simp_all add: len)
  from Cons.IH [OF Cons.prems(1) this] obtain buf' where
    r: "for_channels d C fc cs ?b = Some (Inr buf')"
    and l: "length (channels buf') = length (channels ?b)"
    and v: "\<forall>k < length (channels ?b). channels buf' ! k =
              (if k \<in> set cs then for_frames d C k n (channels ?b ! k) else channels ?b ! k)"
    by blast
  have "\<forall>k < length (channels buf). channels buf' ! k =
          (if k \<in> set (c # cs) then for_frames d C k n (channels buf ! k) else channels buf ! k)"
  proof (intro allI impI)
    fix k assume k: "k < length (channels buf)"
    with v len have e: "channels buf' ! k =
       (if k \<in> set cs then for_frames d C k n (channels ?b ! k) else channels ?b ! k)"
      by simp
    show "channels buf' ! k =
          (if k \<in> set (c # cs) then for_frames d C k n (channels buf ! k) else channels buf ! k)"
    proof (cases "k = c")
      case True
      with Cons.prems(3) have "k \<notin> set cs" by simp
      with e True k show ?thesis by (simp add: setChannelData_def)
    next
      case False
      with e k show ?thesis by (simp add: setChannelData_def)
    qed
  qed
  with step r l len show ?case by simp
qed

text \<open>
  The rounds counted by \<open>loop_rounds\<close> are the values of \<open>i\<close> for which the loop
  condition \<open>i < x\<close> holds.
\<close>

lemma loop_condition: "rat_of_nat i < q \<longleftrightarrow> i < nat \<lceil>q\<rceil>"
  by (simp add: zless_nat_eq_int_zless less_ceiling_iff)

lemma loop_rounds_condition:
  "loop_rounds (Num q) = Some n \<Longrightarrow> (rat_of_nat i < q \<longleftrightarrow> i < n)"
  by (auto simp: loop_rounds_def loop_condition)

lemma ToUnsignedLong_divide:
  assumes "0 < C" "N div C < 2 ^ 32"
  shows "ToUnsignedLong (divide_number N C) = N div C"
proof -
  have fl: "\<lfloor>rat_of_nat N / rat_of_nat C\<rfloor> = int (N div C)"
    by (simp add: floor_divide_of_nat_eq)
  have nn: "\<not> rat_of_nat N / rat_of_nat C < 0"
    by (simp add: not_less)
  have "int (N div C) < int (2 ^ 32)"
    using assms(2) by (simp only: of_nat_less_iff)
  then have "int (N div C) < 2 ^ 32"
    by simp
  then have "int (N div C) mod 2 ^ 32 = int (N div C)"
    by simp
  with fl nn assms(1) show ?thesis
    by (simp add: ToUnsignedLong_def divide_number_def truncate_rat_def)
qed

lemma loop_rounds_divide:
  assumes "0 < C"
  shows "\<exists>n. loop_rounds (divide_number N C) = Some n \<and> N div C \<le> n"
proof -
  have "\<lfloor>rat_of_nat N / rat_of_nat C\<rfloor> = int (N div C)"
    by (simp add: floor_divide_of_nat_eq)
  moreover have "\<lfloor>rat_of_nat N / rat_of_nat C\<rfloor> \<le> \<lceil>rat_of_nat N / rat_of_nat C\<rceil>"
    by (rule floor_le_ceiling)
  ultimately have "N div C \<le> nat \<lceil>rat_of_nat N / rat_of_nat C\<rceil>"
    by linarith
  with assms show ?thesis
    by (simp add: loop_rounds_def divide_number_def)
qed


lemma frame_index_in_range:
  assumes "j < N div C" "c < (C::nat)"
  shows "j * C + c < N"
proof -
  have "j * C + c < Suc j * C" using assms(2) by simp
  also have "\<dots> \<le> (N div C) * C" using assms(1) by (simp only: Suc_leI mult_le_mono1)
  also have "\<dots> \<le> N" by simp
  finally show ?thesis .
qed

subsection \<open>De-interleaving\<close>

text \<open>
  The buffer that \<open>decodeAudioData\<close> returns, by channel and frame: frame \<open>j\<close> of
  channel \<open>c\<close> is sample \<open>j * C + c\<close> over \<open>32768\<close>.
\<close>

lemma decodeAudioData_frames:
  assumes C: "1 \<le> C"
    and bytes: "length (buffer arr) = 2 * N"
    and sup: "supported ctx C (N div C) rate"
    and small: "N div C < 2 ^ 32"
  shows "\<exists>buf. decodeAudioData arr ctx rate C = Some (Inr buf) \<and>
           length (channels buf) = C \<and>
           (\<forall>c < C. length (channels buf ! c) = N div C) \<and>
           (\<forall>c < C. \<forall>j < N div C. channels buf ! c ! j =
              Num (rat_of_int (sint (int16_elements (buffer arr) ! (j * C + c))) / 32768))"
proof -
  let ?d = "int16_elements (buffer arr)"
  let ?fc = "divide_number N C"
  let ?b0 = "\<lparr>numberOfChannels = C, length_frames = N div C, sampleRate = rate,
              channels = replicate C (replicate (N div C) (Num 0))\<rparr>"
  from C have C0: "0 < C" by simp
  have len: "length ?d = N"
    using bytes by (simp add: length_int16_elements)
  have arr: "new_Int16Array (buffer arr) = Inr ?d"
    using bytes by (simp add: new_Int16Array_def)
  have cb: "createBuffer ctx C ?fc rate = Inr ?b0"
    using sup by (simp add: createBuffer_def Let_def ToUnsignedLong_divide [OF C0 small])
  have dec: "decodeAudioData arr ctx rate C = for_channels ?d C ?fc [0..<C] ?b0"
    by (simp add: decodeAudioData_def Let_def arr len cb)
  from loop_rounds_divide [OF C0, of N] obtain n where
    n: "loop_rounds ?fc = Some n" and nle: "N div C \<le> n"
    by blast
  have "\<forall>c\<in>set [0..<C]. c < length (channels ?b0)" "distinct [0..<C]"
    by simp_all
  from for_channels_result [OF n this, of ?d C] obtain buf where
    r: "for_channels ?d C ?fc [0..<C] ?b0 = Some (Inr buf)"
    and l: "length (channels buf) = length (channels ?b0)"
    and v: "\<forall>c < length (channels ?b0). channels buf ! c =
              (if c \<in> set [0..<C] then for_frames ?d C c n (channels ?b0 ! c)
               else channels ?b0 ! c)"
    by blast
  have ch: "channels buf ! c = for_frames ?d C c n (replicate (N div C) (Num 0))" if "c < C" for c
    using v that by simp
  have lens: "\<forall>c < C. length (channels buf ! c) = N div C"
    by (simp add: ch length_for_frames)
  have val: "channels buf ! c ! j = Num (rat_of_int (sint (?d ! (j * C + c))) / 32768)"
    if "c < C" "j < N div C" for c j
  proof -
    from that have "j * C + c < N" by (simp add: frame_index_in_range)
    with that nle show ?thesis
      by (simp add: ch nth_for_frames typed_get_def divide_32768_def len)
  qed
  from dec r l lens val show ?thesis by simp
qed

text \<open>
  When the audio context does not accept a buffer of \<open>C\<close> channels and \<open>N div C\<close>
  frames, \<^verbatim>\<open>createBuffer\<close> raises and \<open>decodeAudioData\<close> ends with that error.
\<close>

lemma decodeAudioData_rejected:
  assumes C: "1 \<le> C"
    and bytes: "length (buffer arr) = 2 * N"
    and small: "N div C < 2 ^ 32"
    and unsup: "\<not> supported ctx C (N div C) rate"
  shows "decodeAudioData arr ctx rate C = Some (Inl NotSupportedError)"
proof -
  let ?d = "int16_elements (buffer arr)"
  from C have C0: "0 < C" by simp
  have len: "length ?d = N"
    using bytes by (simp add: length_int16_elements)
  have arr: "new_Int16Array (buffer arr) = Inr ?d"
    using bytes by (simp add: new_Int16Array_def)
  have "createBuffer ctx C (divide_number N C) rate = Inl NotSupportedError"
    using unsup by (simp add: createBuffer_def Let_def ToUnsignedLong_divide [OF C0 small])
  then show ?thesis
    by (simp add: decodeAudioData_def Let_def arr len)
qed

text \<open>
  Claim C1, as stated, fails. The claim is that for every byte array of \<open>N\<close> samples
  and every channel count \<open>C \<ge> 1\<close> the call gives \<open>C\<close> sequences of exactly
  \<open>N div C\<close> values and never raises when \<open>C\<close> does not divide \<open>N\<close>. With fewer
  samples than channels the frame count is zero, and \<^verbatim>\<open>createBuffer\<close> of the Web Audio
  API raises \<open>NotSupportedError\<close> for a buffer of no frame: one sample for two
  channels raises, where the claim has two empty sequences, and so does the empty
  array for one channel. Moreover the source reads \<^verbatim>\<open>data.buffer\<close>, the whole buffer
  under the array, not the bytes of the array: an array of two bytes, one sample, that
  is a view at offset 2 of a buffer of four bytes gives two frames, the first of them a
  sample that is not in the array.
\<close>

theorem decodeAudioData_short_input_raises:
  "decodeAudioData \<lparr>buffer = [1, 0], byteOffset = 0, length_u8 = 2\<rparr> web_audio_context 24000 2 =
     Some (Inl NotSupportedError) \<and>
   decodeAudioData \<lparr>buffer = [], byteOffset = 0, length_u8 = 0\<rparr> web_audio_context 24000 1 =
     Some (Inl NotSupportedError) \<and>
   (\<exists>buf. decodeAudioData \<lparr>buffer = [1, 0, 2, 0], byteOffset = 2, length_u8 = 2\<rparr>
       web_audio_context 24000 1 = Some (Inr buf) \<and>
     length (channels buf ! 0) = 2 \<and>
     channels buf ! 0 ! 0 = Num (1 / 32768) \<and> channels buf ! 0 ! 1 = Num (2 / 32768))"
proof -
  let ?one = "\<lparr>buffer = [1, 0 :: byte], byteOffset = 0, length_u8 = 2\<rparr>"
  let ?none = "\<lparr>buffer = [] :: byte list, byteOffset = 0, length_u8 = 0\<rparr>"
  let ?view = "\<lparr>buffer = [1, 0, 2, 0 :: byte], byteOffset = 2, length_u8 = 2\<rparr>"
  have "(1::nat) \<le> 2" "length (buffer ?one) = 2 * 1" "(1::nat) div 2 < 2 ^ 32"
    "\<not> supported web_audio_context 2 (1 div 2) 24000"
    by (simp_all add: web_audio_context_def)
  then have first: "decodeAudioData ?one web_audio_context 24000 2 = Some (Inl NotSupportedError)"
    by (rule decodeAudioData_rejected)
  have "(1::nat) \<le> 1" "length (buffer ?none) = 2 * 0" "(0::nat) div 1 < 2 ^ 32"
    "\<not> supported web_audio_context 1 (0 div 1) 24000"
    by (simp_all add: web_audio_context_def)
  then have second: "decodeAudioData ?none web_audio_context 24000 1 = Some (Inl NotSupportedError)"
    by (rule decodeAudioData_rejected)
  have "(1::nat) \<le> 1" "length (buffer ?view) = 2 * 2" "supported web_audio_context 1 (2 div 1) 24000"
    "(2::nat) div 1 < 2 ^ 32"
    by (simp_all add: web_audio_context_def)
  from decodeAudioData_frames [OF this] obtain buf where
    r: "decodeAudioData ?view web_audio_context 24000 1 = Some (Inr buf)"
    and ls: "\<forall>c<1. length (channels buf ! c) = 2 div 1"
    and v: "\<forall>c<1. \<forall>j < 2 div 1. channels buf ! c ! j =
        Num (rat_of_int (sint (int16_elements (buffer ?view) ! (j * 1 + c))) / 32768)"
    by blast
  from ls have l0: "length (channels buf ! 0) = 2" by simp
  from v [rule_format, of 0 0] have v0: "channels buf ! 0 ! 0 = Num (1 / 32768)" by simp
  from v [rule_format, of 0 1] have v1: "channels buf ! 0 ! 1 = Num (2 / 32768)" by simp
  from first second r l0 v0 v1 show ?thesis by blast
qed

text \<open>
  Claim C1, amended. Let the buffer under the array hold \<open>2 * N\<close> bytes, that is \<open>N\<close>
  little-endian 16-bit samples counted on the buffer, let \<open>C \<ge> 1\<close> and let \<open>N div C\<close>
  be below \<open>2^32\<close>. When the audio context accepts a buffer of \<open>C\<close> channels and
  \<open>N div C\<close> frames, \<open>decodeAudioData\<close> returns a buffer (it neither raises nor fails
  to return) with \<open>C\<close> channels of exactly \<open>N div C\<close> frames each, and sample \<open>i\<close> of
  the stream is frame \<open>i div C\<close> of channel \<open>i mod C\<close>, divided by \<open>32768\<close>, for every
  \<open>i\<close> below \<open>(N div C) * C\<close>; the samples from there on are in no channel. When the
  audio context does not accept that shape, the call ends with \<open>NotSupportedError\<close>.
  The source computes the frame count as the quotient \<open>N / C\<close> of numbers, which has a
  fraction when \<open>C\<close> does not divide \<open>N\<close>: the audio context truncates it for the
  allocation, the loop runs one round more than there are frames, and that round's
  write is out of range and ignored.
\<close>

theorem decodeAudioData_deinterleaves:
  assumes C: "1 \<le> C"
    and bytes: "length (buffer arr) = 2 * N"
    and small: "N div C < 2 ^ 32"
  shows "(supported ctx C (N div C) rate \<longrightarrow>
            (\<exists>buf. decodeAudioData arr ctx rate C = Some (Inr buf) \<and>
               length (channels buf) = C \<and>
               (\<forall>c < C. length (channels buf ! c) = N div C) \<and>
               (\<forall>i < (N div C) * C. channels buf ! (i mod C) ! (i div C) =
                  Num (rat_of_int (sint (int16_elements (buffer arr) ! i)) / 32768)))) \<and>
         (\<not> supported ctx C (N div C) rate \<longrightarrow>
            decodeAudioData arr ctx rate C = Some (Inl NotSupportedError))"
proof (intro conjI impI)
  assume sup: "supported ctx C (N div C) rate"
  from decodeAudioData_frames [OF C bytes sup small] obtain buf where
    r: "decodeAudioData arr ctx rate C = Some (Inr buf)"
    and l: "length (channels buf) = C"
    and lens: "\<forall>c < C. length (channels buf ! c) = N div C"
    and val: "\<forall>c < C. \<forall>j < N div C. channels buf ! c ! j =
              Num (rat_of_int (sint (int16_elements (buffer arr) ! (j * C + c))) / 32768)"
    by blast
  from C have C0: "0 < C" by simp
  have "\<forall>i < (N div C) * C. channels buf ! (i mod C) ! (i div C) =
          Num (rat_of_int (sint (int16_elements (buffer arr) ! i)) / 32768)"
  proof (intro allI impI)
    fix i assume i: "i < (N div C) * C"
    from C0 have c: "i mod C < C" by simp
    from i C0 have j: "i div C < N div C"
      by (simp add: less_mult_imp_div_less)
    from val c j have "channels buf ! (i mod C) ! (i div C) =
        Num (rat_of_int (sint (int16_elements (buffer arr) ! (i div C * C + i mod C))) / 32768)"
      by blast
    then show "channels buf ! (i mod C) ! (i div C) =
          Num (rat_of_int (sint (int16_elements (buffer arr) ! i)) / 32768)"
      by simp
  qed
  with r l lens show "\<exists>buf. decodeAudioData arr ctx rate C = Some (Inr buf) \<and>
               length (channels buf) = C \<and>
               (\<forall>c < C. length (channels buf ! c) = N div C) \<and>
               (\<forall>i < (N div C) * C. channels buf ! (i mod C) ! (i div C) =
                  Num (rat_of_int (sint (int16_elements (buffer arr) ! i)) / 32768))"
    by blast
next
  assume "\<not> supported ctx C (N div C) rate"
  with C bytes small show "decodeAudioData arr ctx rate C = Some (Inl NotSupportedError)"
    by (rule decodeAudioData_rejected)
qed

theorem decodeAudioData_deinterleaves_witness:
  "(\<exists>buf. decodeAudioData \<lparr>buffer = [1, 0, 2, 0, 255, 255, 0, 128, 5, 0], byteOffset = 0, length_u8 = 10\<rparr>
       web_audio_context 24000 2 = Some (Inr buf) \<and>
     length (channels buf) = 2 \<and>
     length (channels buf ! 0) = 2 \<and> length (channels buf ! 1) = 2 \<and>
     channels buf ! 0 ! 0 = Num (1 / 32768) \<and> channels buf ! 1 ! 0 = Num (2 / 32768) \<and>
     channels buf ! 0 ! 1 = Num (- 1 / 32768) \<and> channels buf ! 1 ! 1 = Num (- 1)) \<and>
   decodeAudioData \<lparr>buffer = [1, 0, 2, 0], byteOffset = 0, length_u8 = 4\<rparr>
       web_audio_context 24000 3 = Some (Inl NotSupportedError)"
proof -
  let ?arr = "\<lparr>buffer = [1, 0, 2, 0, 255, 255, 0, 128, 5, 0 :: byte], byteOffset = 0, length_u8 = 10\<rparr>"
  let ?short = "\<lparr>buffer = [1, 0, 2, 0 :: byte], byteOffset = 0, length_u8 = 4\<rparr>"
  have h: "(1::nat) \<le> 2" "length (buffer ?arr) = 2 * 5" "(5::nat) div 2 < 2 ^ 32"
    by simp_all
  have sup: "supported web_audio_context 2 (5 div 2) 24000"
    by (simp add: web_audio_context_def)
  from decodeAudioData_deinterleaves [OF h, of web_audio_context 24000] sup obtain buf where
    r: "decodeAudioData ?arr web_audio_context 24000 2 = Some (Inr buf)"
    and l: "length (channels buf) = 2"
    and ls: "\<forall>c<2. length (channels buf ! c) = 5 div 2"
    and v: "\<forall>i < 5 div 2 * 2. channels buf ! (i mod 2) ! (i div 2) =
              Num (rat_of_int (sint (int16_elements (buffer ?arr) ! i)) / 32768)"
    by blast
  from ls have l0: "length (channels buf ! 0) = 2" and l1: "length (channels buf ! 1) = 2"
    by simp_all
  from v [rule_format, of 0] have v0: "channels buf ! 0 ! 0 = Num (1 / 32768)" by simp
  from v [rule_format, of 1] have v1: "channels buf ! 1 ! 0 = Num (2 / 32768)" by simp
  from v [rule_format, of 2] have v2: "channels buf ! 0 ! 1 = Num (- 1 / 32768)" by simp
  from v [rule_format, of 3] have v3: "channels buf ! 1 ! 1 = Num (- 1)" by simp
  have k: "(1::nat) \<le> 3" "length (buffer ?short) = 2 * 2" "(2::nat) div 3 < 2 ^ 32"
    by simp_all
  have unsup: "\<not> supported web_audio_context 3 (2 div 3) 24000"
    by (simp add: web_audio_context_def)
  from decodeAudioData_deinterleaves [OF k, of web_audio_context 24000] unsup
  have rej: "decodeAudioData ?short web_audio_context 24000 3 = Some (Inl NotSupportedError)"
    by blast
  from r l l0 l1 v0 v1 v2 v3 rej show ?thesis by blast
qed

subsection \<open>Normalisation\<close>

text \<open>
  The quotient is an integer of at most 16 bits over \<open>2^15\<close>, which a binary
  floating-point number of 24 or 53 bits of precision holds exactly.
\<close>

lemma sample_quotient_dyadic:
  "rat_of_int (sint (s::int16)) / 32768 = rat_of_int (sint s) / 2 ^ 15 \<and>
   \<bar>sint s\<bar> \<le> 2 ^ 15"
proof -
  have "- (2 ^ (LENGTH(16) - 1)) \<le> sint s" "sint s < 2 ^ (LENGTH(16) - 1)"
    by (rule sint_ge, rule sint_lt)
  then show ?thesis by simp
qed

lemma sint_in_range:
  assumes "- 32768 \<le> s" "s \<le> 32767"
  shows "sint (word_of_int s :: int16) = s"
  using assms by (simp add: sint_sbintrunc' signed_take_bit_int_eq_self)



subsection \<open>Odd byte lengths\<close>

text \<open>
  Claim C10. When the buffer under the \<^verbatim>\<open>Uint8Array\<close> has an odd number of bytes,
  \<open>decodeAudioData\<close> fails with the \<open>RangeError\<close> of the \<^verbatim>\<open>Int16Array\<close> constructor,
  whatever the audio context, the sample rate and the channel count; and whenever it
  returns a buffer, the byte length was even.
\<close>

theorem decodeAudioData_odd_length_fails:
  "(odd (length (buffer arr)) \<longrightarrow> decodeAudioData arr ctx rate numChannels = Some (Inl RangeError)) \<and>
   (\<forall>buf. decodeAudioData arr ctx rate numChannels = Some (Inr buf) \<longrightarrow> even (length (buffer arr)))"
  by (auto simp: decodeAudioData_def new_Int16Array_def)

theorem decodeAudioData_odd_length_fails_witness:
  "decodeAudioData \<lparr>buffer = [1, 0, 2], byteOffset = 0, length_u8 = 3\<rparr>
       \<lparr>supported = (\<lambda>c n r. True)\<rparr> 24000 1 = Some (Inl RangeError) \<and>
   (\<exists>buf. decodeAudioData \<lparr>buffer = [1, 0, 2, 0], byteOffset = 0, length_u8 = 4\<rparr>
       \<lparr>supported = (\<lambda>c n r. True)\<rparr> 24000 1 = Some (Inr buf)) \<and>
   even (length (buffer \<lparr>buffer = [1, 0, 2, 0], byteOffset = 0, length_u8 = 4\<rparr>))"
proof -
  let ?odd = "\<lparr>buffer = [1, 0, 2 :: byte], byteOffset = 0, length_u8 = 3\<rparr>"
  let ?even = "\<lparr>buffer = [1, 0, 2, 0 :: byte], byteOffset = 0, length_u8 = 4\<rparr>"
  let ?ctx = "\<lparr>supported = (\<lambda>c n (r::rat). True)\<rparr>"
  have "odd (length (buffer ?odd))" by simp
  with decodeAudioData_odd_length_fails [of ?odd ?ctx 24000 1]
  have fails: "decodeAudioData ?odd ?ctx 24000 1 = Some (Inl RangeError)"
    by blast
  have "(1::nat) \<le> 1" "length (buffer ?even) = 2 * 2" "supported ?ctx 1 (2 div 1) 24000"
    "(2::nat) div 1 < 2 ^ 32"
    by simp_all
  from decodeAudioData_frames [OF this] obtain buf where
    returns: "decodeAudioData ?even ?ctx 24000 1 = Some (Inr buf)"
    by blast
  with decodeAudioData_odd_length_fails [of ?even ?ctx 24000 1]
  have "even (length (buffer ?even))"
    by blast
  with fails returns show ?thesis by blast
qed

section \<open>Properties of the service calls\<close>

subsection \<open>The polling loop\<close>

text \<open>
  While the operations are pending and the status requests succeed, the loop goes on
  and adds a delay and a status request per round. It returns at an operation that is
  done and at a failed request, and only there.
\<close>

lemma poll_trace_Suc:
  "poll_trace ops j (Suc n) = [Delay 10000, GetVideosOperation (ops j)] @ poll_trace ops (Suc j) n"
  by (simp add: poll_trace_def upt_rec [of j])

lemma poll_pending:
  assumes "\<forall>k<n. done' (ops (j + k)) \<noteq> Some True \<and>
                 getVideosOperation env (j + k) (ops (j + k)) = Inr (ops (Suc (j + k)))"
  shows "poll env j (ops j) tr = poll env (j + n) (ops (j + n)) (tr @ poll_trace ops j n)"
  using assms
proof (induction n arbitrary: j tr)
  case 0
  then show ?case by (simp add: poll_trace_def)
next
  case (Suc n)
  from Suc.prems have first: "done' (ops j) \<noteq> Some True"
    "getVideosOperation env j (ops j) = Inr (ops (Suc j))"
    by (metis add.right_neutral zero_less_Suc)+
  have rest: "\<forall>k<n. done' (ops (Suc j + k)) \<noteq> Some True \<and>
                 getVideosOperation env (Suc j + k) (ops (Suc j + k)) = Inr (ops (Suc (Suc j + k)))"
  proof (intro allI impI)
    fix k assume "k < n"
    then have "Suc k < Suc n" by simp
    with Suc.prems have "done' (ops (j + Suc k)) \<noteq> Some True \<and>
        getVideosOperation env (j + Suc k) (ops (j + Suc k)) = Inr (ops (Suc (j + Suc k)))"
      by blast
    then show "done' (ops (Suc j + k)) \<noteq> Some True \<and>
        getVideosOperation env (Suc j + k) (ops (Suc j + k)) = Inr (ops (Suc (Suc j + k)))"
      by simp
  qed
  have "poll env j (ops j) tr
        = poll env (Suc j) (ops (Suc j)) (tr @ [Delay 10000, GetVideosOperation (ops j)])"
    using first by (subst poll.simps) simp
  also have "\<dots> = poll env (Suc j + n) (ops (Suc j + n))
                     ((tr @ [Delay 10000, GetVideosOperation (ops j)]) @ poll_trace ops (Suc j) n)"
    by (rule Suc.IH [OF rest])
  finally show ?case
    by (simp add: poll_trace_Suc)
qed

lemma poll_done:
  "done' operation = Some True \<Longrightarrow> poll env k operation tr = Some (tr, Inr operation)"
  by (subst poll.simps) simp

lemma poll_error:
  "done' operation \<noteq> Some True \<Longrightarrow> getVideosOperation env k operation = Inl e \<Longrightarrow>
   poll env k operation tr = Some (tr @ [Delay 10000, GetVideosOperation operation], Inl e)"
  by (subst poll.simps) simp

lemma poll_returns_not_stuck:
  assumes stuck: "\<forall>k. done' (ops k) \<noteq> Some True \<and> getVideosOperation env k (ops k) = Inr (ops (Suc k))"
    and ret: "poll env' k operation tr = Some y"
  shows "env' = env \<longrightarrow> operation \<noteq> ops k"
proof (rule poll.raw_induct
    [where P = "\<lambda>e k operation tr y. e = env \<longrightarrow> operation \<noteq> ops k", OF _ ret])
  fix approx e k operation tr y
  assume IH: "\<And>e k operation tr y. approx e k operation tr = Some y \<Longrightarrow>
                 e = env \<longrightarrow> operation \<noteq> ops k"
    and step: "(if done' operation \<noteq> Some True then
                 (case getVideosOperation e k operation of
                    Inl err \<Rightarrow> Some (tr @ [Delay 10000, GetVideosOperation operation], Inl err)
                  | Inr operation' \<Rightarrow>
                      approx e (Suc k) operation' (tr @ [Delay 10000, GetVideosOperation operation]))
               else Some (tr, Inr operation)) = Some y"
  show "e = env \<longrightarrow> operation \<noteq> ops k"
  proof (intro impI notI)
    assume e: "e = env" and o: "operation = ops k"
    from stuck have p: "done' (ops k) \<noteq> Some True"
      and g: "getVideosOperation env k (ops k) = Inr (ops (Suc k))"
      by blast+
    from step e o p g have
      "approx env (Suc k) (ops (Suc k)) (tr @ [Delay 10000, GetVideosOperation (ops k)]) = Some y"
      by simp
    from IH [OF this] show False by simp
  qed
qed

lemma poll_never:
  assumes "\<forall>k. done' (ops k) \<noteq> Some True \<and> getVideosOperation env k (ops k) = Inr (ops (Suc k))"
  shows "poll env j (ops j) tr = None"
proof (cases "poll env j (ops j) tr")
  case None
  then show ?thesis .
next
  case (Some y)
  from poll_returns_not_stuck [OF assms this] show ?thesis by simp
qed

lemma poll_trace_snoc:
  "poll_trace ops j (Suc n) = poll_trace ops j n @ [Delay 10000, GetVideosOperation (ops (j + n))]"
  by (simp add: poll_trace_def)

lemma poll_pending_from_start:
  assumes "\<forall>k<n. done' (ops k) \<noteq> Some True \<and> getVideosOperation env k (ops k) = Inr (ops (Suc k))"
  shows "poll env 0 (ops 0) tr = poll env n (ops n) (tr @ poll_trace ops 0 n)"
  using poll_pending [of n ops 0 env tr] assms by simp

text \<open>
  Claim C3. Take a video job whose operation is not done at the first \<open>n\<close> checks, each
  status request answering with the next operation. If the operation is done at check
  \<open>n + 1\<close>, \<open>generateLessonPrompt\<close> makes exactly \<open>n\<close> status requests, each directly
  after a delay of 10000 ms, and then fetches the result's URI with the key and makes
  the object URL. If instead the status request \<open>n + 1\<close> fails, the call ends with that
  error right there, with no further request. There is no bound on \<open>n\<close>, and a job that
  is never done makes the call never return. The case of the claim is \<open>n = 3\<close>; the
  concrete runs after the theorem are that case, a failure at the second status
  request, and a job that stays pending.
\<close>

theorem generateLessonPrompt_polls_until_done:
  assumes scene: "generateContent env (ScenePrompt level topic (specificContext topic)) = Inr promptRequest"
    and submit: "generateVideos env (visualPrompt promptRequest) = Inr (ops 0)"
    and pending: "\<forall>k<n. done' (ops k) \<noteq> Some True \<and>
                          getVideosOperation env k (ops k) = Inr (ops (Suc k))"
  shows "(done' (ops n) = Some True \<longrightarrow>
            (\<forall>blob. fetch env (download_url env (ops n)) = Inr blob \<longrightarrow>
               generateLessonPrompt env topic level Video =
                 Some ([GenerateContent (ScenePrompt level topic (specificContext topic)),
                        GenerateVideos (visualPrompt promptRequest)] @ poll_trace ops 0 n @
                       [Fetch (download_url env (ops n)), CreateObjectURL blob],
                       Inr \<lparr>url = createObjectURL env blob,
                            promptText = visualPrompt promptRequest\<rparr>))) \<and>
         (done' (ops n) \<noteq> Some True \<longrightarrow>
            (\<forall>e. getVideosOperation env n (ops n) = Inl e \<longrightarrow>
               generateLessonPrompt env topic level Video =
                 Some ([GenerateContent (ScenePrompt level topic (specificContext topic)),
                        GenerateVideos (visualPrompt promptRequest)] @ poll_trace ops 0 (Suc n),
                       Inl e))) \<and>
         ((\<forall>k. done' (ops k) \<noteq> Some True \<and>
                getVideosOperation env k (ops k) = Inr (ops (Suc k))) \<longrightarrow>
            generateLessonPrompt env topic level Video = None)"
proof -
  let ?scene = "GenerateContent (ScenePrompt level topic (specificContext topic))"
  let ?p = "visualPrompt promptRequest"
  let ?tr = "[?scene] @ [GenerateVideos ?p]"
  have run: "generateLessonPrompt env topic level Video = video_branch env ?p [?scene]"
    using scene by (simp add: generateLessonPrompt_def)
  have reach: "poll env 0 (ops 0) ?tr = poll env n (ops n) (?tr @ poll_trace ops 0 n)"
    by (rule poll_pending_from_start [OF pending])
  have finished: "generateLessonPrompt env topic level Video =
                 Some ([?scene, GenerateVideos ?p] @ poll_trace ops 0 n @
                       [Fetch (download_url env (ops n)), CreateObjectURL blob],
                       Inr \<lparr>url = createObjectURL env blob, promptText = ?p\<rparr>)"
    if "done' (ops n) = Some True" "fetch env (download_url env (ops n)) = Inr blob" for blob
  proof -
    have "poll env 0 (ops 0) ?tr = Some (?tr @ poll_trace ops 0 n, Inr (ops n))"
      using reach poll_done [OF that(1)] by simp
    with submit that(2) show ?thesis
      by (simp add: run video_branch_def)
  qed
  have failed: "generateLessonPrompt env topic level Video =
                 Some ([?scene, GenerateVideos ?p] @ poll_trace ops 0 (Suc n), Inl e)"
    if "done' (ops n) \<noteq> Some True" "getVideosOperation env n (ops n) = Inl e" for e
  proof -
    have "poll env 0 (ops 0) ?tr = Some (?tr @ poll_trace ops 0 (Suc n), Inl e)"
      using reach poll_error [OF that] by (simp add: poll_trace_snoc)
    with submit show ?thesis
      by (simp add: run video_branch_def)
  qed
  have stalls: "generateLessonPrompt env topic level Video = None"
    if "\<forall>k. done' (ops k) \<noteq> Some True \<and> getVideosOperation env k (ops k) = Inr (ops (Suc k))"
  proof -
    have "poll env 0 (ops 0) ?tr = None"
      by (rule poll_never [OF that])
    with submit show ?thesis
      by (simp add: run video_branch_def)
  qed
  from finished failed stalls show ?thesis by blast
qed

theorem generateLessonPrompt_polls_until_done_witness:
  "generateLessonPrompt
     (example_env (example_answer (Some ''A forest at dawn'') no_candidates None no_candidates))
     ''Nature'' Beginner Video =
   Some ([GenerateContent (ScenePrompt Beginner ''Nature'' []),
          GenerateVideos ''A forest at dawn'',
          Delay 10000, GetVideosOperation (example_operation 0),
          Delay 10000, GetVideosOperation (example_operation 1),
          Delay 10000, GetVideosOperation (example_operation 2),
          Fetch ''https://video.test/1?alt=media&key=KEY'', CreateObjectURL [1, 2, 3]],
         Inr \<lparr>url = ''blob:1'', promptText = ''A forest at dawn''\<rparr>) \<and>
   generateLessonPrompt
     ((example_env (example_answer (Some ''A forest at dawn'') no_candidates None no_candidates))
        \<lparr>getVideosOperation :=
           (\<lambda>k operation. if k = 1 then Inl (ServiceError ''unavailable'')
                           else Inr (example_operation (Suc k)))\<rparr>)
     ''Nature'' Beginner Video =
   Some ([GenerateContent (ScenePrompt Beginner ''Nature'' []),
          GenerateVideos ''A forest at dawn'',
          Delay 10000, GetVideosOperation (example_operation 0),
          Delay 10000, GetVideosOperation (example_operation 1)],
         Inl (ServiceError ''unavailable'')) \<and>
   generateLessonPrompt
     ((example_env (example_answer (Some ''A forest at dawn'') no_candidates None no_candidates))
        \<lparr>getVideosOperation := (\<lambda>k operation. Inr (example_operation 0))\<rparr>)
     ''Nature'' Beginner Video = None"
proof -
  let ?env = "example_env (example_answer (Some ''A forest at dawn'') no_candidates None no_candidates)"
  let ?scene = "\<lparr>text' = Some ''A forest at dawn'', candidates = None\<rparr>"
  have scene: "generateContent ?env (ScenePrompt Beginner ''Nature'' (specificContext ''Nature'')) = Inr ?scene"
    by (simp add: example_env_def example_answer_def)
  have submit: "generateVideos ?env (visualPrompt ?scene) = Inr (example_operation 0)"
    by (simp add: example_env_def)
  have pending: "\<forall>k<3. done' (example_operation k) \<noteq> Some True \<and>
      getVideosOperation ?env k (example_operation k) = Inr (example_operation (Suc k))"
    by (simp add: example_env_def example_operation_def)
  have finished: "done' (example_operation 3) = Some True"
    by (simp add: example_operation_def)
  have link: "download_url ?env (example_operation 3) = ''https://video.test/1?alt=media&key=KEY''"
    by (simp add: download_url_def video_uri_def template_def example_env_def example_operation_def)
  have download: "fetch ?env (download_url ?env (example_operation 3)) = Inr [1, 2, 3]"
    by (simp add: example_env_def)
  have trace: "poll_trace example_operation 0 3 =
      [Delay 10000, GetVideosOperation (example_operation 0),
       Delay 10000, GetVideosOperation (example_operation 1),
       Delay 10000, GetVideosOperation (example_operation 2)]"
    by (simp add: poll_trace_def numeral_3_eq_3 numeral_2_eq_2)
  have prompt: "visualPrompt ?scene = ''A forest at dawn''"
    by (simp add: visualPrompt_def or_else_def)
  have plain: "specificContext ''Nature'' = []"
    by (simp add: specificContext_def)
  from generateLessonPrompt_polls_until_done [OF scene submit pending] finished download
  have "generateLessonPrompt ?env ''Nature'' Beginner Video =
      Some ([GenerateContent (ScenePrompt Beginner ''Nature'' (specificContext ''Nature'')),
             GenerateVideos (visualPrompt ?scene)] @ poll_trace example_operation 0 3 @
            [Fetch (download_url ?env (example_operation 3)), CreateObjectURL [1, 2, 3]],
            Inr \<lparr>url = createObjectURL ?env [1, 2, 3], promptText = visualPrompt ?scene\<rparr>)"
    by blast
  then have first: "generateLessonPrompt
     (example_env (example_answer (Some ''A forest at dawn'') no_candidates None no_candidates))
     ''Nature'' Beginner Video =
   Some ([GenerateContent (ScenePrompt Beginner ''Nature'' []),
          GenerateVideos ''A forest at dawn'',
          Delay 10000, GetVideosOperation (example_operation 0),
          Delay 10000, GetVideosOperation (example_operation 1),
          Delay 10000, GetVideosOperation (example_operation 2),
          Fetch ''https://video.test/1?alt=media&key=KEY'', CreateObjectURL [1, 2, 3]],
         Inr \<lparr>url = ''blob:1'', promptText = ''A forest at dawn''\<rparr>)"
    by (simp add: trace prompt plain link) (simp add: example_env_def)

  let ?failing = "?env\<lparr>getVideosOperation :=
      (\<lambda>k operation. if k = 1 then Inl (ServiceError ''unavailable'')
                      else Inr (example_operation (Suc k)))\<rparr>"
  have scene2: "generateContent ?failing (ScenePrompt Beginner ''Nature'' (specificContext ''Nature'')) = Inr ?scene"
    by (simp add: example_env_def example_answer_def)
  have submit2: "generateVideos ?failing (visualPrompt ?scene) = Inr (example_operation 0)"
    by (simp add: example_env_def)
  have pending2: "\<forall>k<1. done' (example_operation k) \<noteq> Some True \<and>
      getVideosOperation ?failing k (example_operation k) = Inr (example_operation (Suc k))"
    by (simp add: example_operation_def)
  have still: "done' (example_operation 1) \<noteq> Some True"
    by (simp add: example_operation_def)
  have fails: "getVideosOperation ?failing 1 (example_operation 1) = Inl (ServiceError ''unavailable'')"
    by simp
  have trace2: "poll_trace example_operation 0 (Suc (Suc 0)) =
      [Delay 10000, GetVideosOperation (example_operation 0),
       Delay 10000, GetVideosOperation (example_operation (Suc 0))]"
    by (simp add: poll_trace_def)
  from generateLessonPrompt_polls_until_done [OF scene2 submit2 pending2] still fails
  have "generateLessonPrompt ?failing ''Nature'' Beginner Video =
      Some ([GenerateContent (ScenePrompt Beginner ''Nature'' (specificContext ''Nature'')),
             GenerateVideos (visualPrompt ?scene)] @ poll_trace example_operation 0 (Suc 1),
            Inl (ServiceError ''unavailable''))"
    by blast
  then have second: "generateLessonPrompt ?failing ''Nature'' Beginner Video =
      Some ([GenerateContent (ScenePrompt Beginner ''Nature'' []),
          GenerateVideos ''A forest at dawn'',
          Delay 10000, GetVideosOperation (example_operation 0),
          Delay 10000, GetVideosOperation (example_operation 1)],
         Inl (ServiceError ''unavailable''))"
    by (simp add: trace2 prompt plain)
  let ?stalled = "?env\<lparr>getVideosOperation := (\<lambda>k operation. Inr (example_operation 0))\<rparr>"
  let ?ops = "\<lambda>k::nat. example_operation 0"
  have scene3: "generateContent ?stalled (ScenePrompt Beginner ''Nature'' (specificContext ''Nature'')) = Inr ?scene"
    by (simp add: example_env_def example_answer_def)
  have submit3: "generateVideos ?stalled (visualPrompt ?scene) = Inr (?ops 0)"
    by (simp add: example_env_def)
  have pending3: "\<forall>k<0. done' (?ops k) \<noteq> Some True \<and>
      getVideosOperation ?stalled k (?ops k) = Inr (?ops (Suc k))"
    by simp
  have never: "\<forall>k. done' (?ops k) \<noteq> Some True \<and>
      getVideosOperation ?stalled k (?ops k) = Inr (?ops (Suc k))"
    by (simp add: example_operation_def)
  from generateLessonPrompt_polls_until_done [of ?stalled Beginner "''Nature''" ?scene ?ops 0,
      OF scene3 submit3 pending3] never
  have third: "generateLessonPrompt ?stalled ''Nature'' Beginner Video = None"
    by blast
  from first second third show ?thesis by simp
qed

subsection \<open>The prompt of the media step\<close>

lemma poll_extends_trace:
  assumes "poll env k operation tr = Some y"
  shows "\<exists>more. fst y = tr @ more \<and> (\<forall>ev\<in>set more. \<forall>p. \<not> is_media_request ev p)"
proof (rule poll.raw_induct
    [where P = "\<lambda>e k operation tr y. \<exists>more. fst y = tr @ more \<and>
                   (\<forall>ev\<in>set more. \<forall>p. \<not> is_media_request ev p)", OF _ assms])
  fix approx e k operation tr y
  assume IH: "\<And>e k operation tr y. approx e k operation tr = Some y \<Longrightarrow>
                 \<exists>more. fst y = tr @ more \<and> (\<forall>ev\<in>set more. \<forall>p. \<not> is_media_request ev p)"
    and step: "(if done' operation \<noteq> Some True then
                 (case getVideosOperation e k operation of
                    Inl err \<Rightarrow> Some (tr @ [Delay 10000, GetVideosOperation operation], Inl err)
                  | Inr operation' \<Rightarrow>
                      approx e (Suc k) operation' (tr @ [Delay 10000, GetVideosOperation operation]))
               else Some (tr, Inr operation)) = Some y"
  show "\<exists>more. fst y = tr @ more \<and> (\<forall>ev\<in>set more. \<forall>p. \<not> is_media_request ev p)"
  proof (cases "done' operation \<noteq> Some True")
    case False
    with step have "fst y = tr @ []" by auto
    then show ?thesis by (intro exI [of _ "[]"]) simp
  next
    case True
    show ?thesis
    proof (cases "getVideosOperation e k operation")
      case (Inl err)
      with True step have "fst y = tr @ [Delay 10000, GetVideosOperation operation]" by auto
      then show ?thesis
        by (intro exI [of _ "[Delay 10000, GetVideosOperation operation]"])
           (simp add: is_media_request_def)
    next
      case (Inr operation')
      with True step have
        "approx e (Suc k) operation' (tr @ [Delay 10000, GetVideosOperation operation]) = Some y"
        by simp
      from IH [OF this] obtain more where
        "fst y = (tr @ [Delay 10000, GetVideosOperation operation]) @ more"
        "\<forall>ev\<in>set more. \<forall>p. \<not> is_media_request ev p"
        by blast
      then show ?thesis
        by (intro exI [of _ "[Delay 10000, GetVideosOperation operation] @ more"])
           (simp add: is_media_request_def)
    qed
  qed
qed

lemma visualPrompt_nonempty: "visualPrompt r \<noteq> []"
  by (simp add: visualPrompt_def or_else_def FALLBACK_PROMPT_def split: option.splits)

lemma visualPrompt_empty:
  "text' r = None \<or> text' r = Some [] \<Longrightarrow> visualPrompt r = FALLBACK_PROMPT"
  by (auto simp: visualPrompt_def or_else_def)

lemma image_branch_returns:
  "image_branch env visual tr = Some (tr', out) \<Longrightarrow>
   tr' = tr @ [media_request Image visual] \<and> (\<forall>res. out = Inr res \<longrightarrow> promptText res = visual)"
  by (auto simp: image_branch_def media_request_def split: sum.splits)

lemma video_branch_returns:
  assumes "video_branch env visual tr = Some (tr', out)"
  shows "\<exists>more. tr' = tr @ media_request Video visual # more \<and>
           (\<forall>ev\<in>set more. \<forall>p. \<not> is_media_request ev p) \<and>
           (\<forall>res. out = Inr res \<longrightarrow> promptText res = visual)"
proof (cases "generateVideos env visual")
  case (Inl e)
  with assms have "tr' = tr @ media_request Video visual # []" "out = Inl e"
    by (simp_all add: video_branch_def media_request_def)
  then show ?thesis by (intro exI [of _ "[]"]) simp
next
  case (Inr operation)
  show ?thesis
  proof (cases "poll env 0 operation (tr @ [GenerateVideos visual])")
    case None
    with Inr assms show ?thesis by (simp add: video_branch_def)
  next
    case (Some y)
    obtain tr1 r1 where y: "y = (tr1, r1)" by (cases y)
    from poll_extends_trace [OF Some] y obtain more where
      tr1: "tr1 = (tr @ [GenerateVideos visual]) @ more"
      and more: "\<forall>ev\<in>set more. \<forall>p. \<not> is_media_request ev p"
      by auto
    show ?thesis
    proof (cases r1)
      case (Inl e)
      with Inr Some y assms have "tr' = tr1" "out = Inl e"
        by (simp_all add: video_branch_def)
      with tr1 more show ?thesis
        by (intro exI [of _ more]) (simp add: media_request_def)
    next
      case finished: (Inr fin)
      let ?link = "download_url env fin"
      show ?thesis
      proof (cases "fetch env ?link")
        case (Inl e)
        with Inr Some y finished assms have "tr' = tr1 @ [Fetch ?link]" "out = Inl e"
          by (simp_all add: video_branch_def)
        with tr1 more show ?thesis
          by (intro exI [of _ "more @ [Fetch ?link]"])
             (simp add: media_request_def is_media_request_def)
      next
        case blob: (Inr blob)
        with Inr Some y finished assms have
          "tr' = tr1 @ [Fetch ?link, CreateObjectURL blob]"
          "out = Inr \<lparr>url = createObjectURL env blob, promptText = visual\<rparr>"
          by (simp_all add: video_branch_def)
        with tr1 more show ?thesis
          by (intro exI [of _ "more @ [Fetch ?link, CreateObjectURL blob]"])
             (auto simp: media_request_def is_media_request_def)
      qed
    qed
  qed
qed

lemma generateLessonPrompt_trace:
  assumes scene: "generateContent env (ScenePrompt level topic (specificContext topic)) = Inr promptRequest"
    and ret: "generateLessonPrompt env topic level type = Some (tr, out)"
  shows "\<exists>more. tr = [GenerateContent (ScenePrompt level topic (specificContext topic)),
                      media_request type (visualPrompt promptRequest)] @ more \<and>
           (\<forall>ev\<in>set more. \<forall>p. \<not> is_media_request ev p) \<and>
           (\<forall>res. out = Inr res \<longrightarrow> promptText res = visualPrompt promptRequest)"
proof (cases type)
  case Image
  with scene ret have "image_branch env (visualPrompt promptRequest)
      [GenerateContent (ScenePrompt level topic (specificContext topic))] = Some (tr, out)"
    by (simp add: generateLessonPrompt_def)
  from image_branch_returns [OF this] Image show ?thesis
    by (intro exI [of _ "[]"]) simp
next
  case Video
  with scene ret have "video_branch env (visualPrompt promptRequest)
      [GenerateContent (ScenePrompt level topic (specificContext topic))] = Some (tr, out)"
    by (simp add: generateLessonPrompt_def)
  from video_branch_returns [OF this] Video show ?thesis
    by auto
qed

text \<open>
  The video branch on a job that is pending at the first \<open>n\<close> checks: it returns the
  downloaded result when check \<open>n + 1\<close> finds the job done, and ends with the error of
  the download or of status request \<open>n + 1\<close> when one of them fails.
\<close>

lemma video_branch_finishes:
  assumes submit: "generateVideos env visual = Inr (ops 0)"
    and pending: "\<forall>k<n. done' (ops k) \<noteq> Some True \<and>
                          getVideosOperation env k (ops k) = Inr (ops (Suc k))"
    and finished: "done' (ops n) = Some True"
    and download: "fetch env (download_url env (ops n)) = Inr blob"
  shows "video_branch env visual tr =
           Some (tr @ [GenerateVideos visual] @ poll_trace ops 0 n @
                 [Fetch (download_url env (ops n)), CreateObjectURL blob],
                 Inr \<lparr>url = createObjectURL env blob, promptText = visual\<rparr>)"
proof -
  have "poll env 0 (ops 0) (tr @ [GenerateVideos visual]) =
        poll env n (ops n) ((tr @ [GenerateVideos visual]) @ poll_trace ops 0 n)"
    by (rule poll_pending_from_start [OF pending])
  with poll_done [OF finished] have
    "poll env 0 (ops 0) (tr @ [GenerateVideos visual]) =
       Some ((tr @ [GenerateVideos visual]) @ poll_trace ops 0 n, Inr (ops n))"
    by simp
  with submit download show ?thesis
    by (simp add: video_branch_def)
qed

lemma video_branch_fails:
  assumes submit: "generateVideos env visual = Inr (ops 0)"
    and pending: "\<forall>k<n. done' (ops k) \<noteq> Some True \<and>
                          getVideosOperation env k (ops k) = Inr (ops (Suc k))"
    and still: "done' (ops n) \<noteq> Some True"
    and fails: "getVideosOperation env n (ops n) = Inl e"
  shows "video_branch env visual tr =
           Some (tr @ [GenerateVideos visual] @ poll_trace ops 0 (Suc n), Inl e)"
proof -
  have "poll env 0 (ops 0) (tr @ [GenerateVideos visual]) =
        poll env n (ops n) ((tr @ [GenerateVideos visual]) @ poll_trace ops 0 n)"
    by (rule poll_pending_from_start [OF pending])
  with poll_error [OF still fails] have
    "poll env 0 (ops 0) (tr @ [GenerateVideos visual]) =
       Some ((tr @ [GenerateVideos visual]) @ poll_trace ops 0 (Suc n), Inl e)"
    by (simp add: poll_trace_snoc)
  with submit show ?thesis
    by (simp add: video_branch_def)
qed

lemma video_branch_download_fails:
  assumes submit: "generateVideos env visual = Inr (ops 0)"
    and pending: "\<forall>k<n. done' (ops k) \<noteq> Some True \<and>
                          getVideosOperation env k (ops k) = Inr (ops (Suc k))"
    and finished: "done' (ops n) = Some True"
    and download: "fetch env (download_url env (ops n)) = Inl e"
  shows "video_branch env visual tr =
           Some (tr @ [GenerateVideos visual] @ poll_trace ops 0 n @
                 [Fetch (download_url env (ops n))], Inl e)"
proof -
  have "poll env 0 (ops 0) (tr @ [GenerateVideos visual]) =
        poll env n (ops n) ((tr @ [GenerateVideos visual]) @ poll_trace ops 0 n)"
    by (rule poll_pending_from_start [OF pending])
  with poll_done [OF finished] have
    "poll env 0 (ops 0) (tr @ [GenerateVideos visual]) =
       Some ((tr @ [GenerateVideos visual]) @ poll_trace ops 0 n, Inr (ops n))"
    by simp
  with submit download show ?thesis
    by (simp add: video_branch_def)
qed

text \<open>
  Claim C5. When the scene request answers with no text or with the empty text, the
  prompt handed to the image or video generation is the fallback description, letter
  for letter, which is not empty; it is the only media request of the call; and the
  \<open>promptText\<close> of a result is that fallback. The image call always returns: its one
  media request is the image request for the fallback, and it ends with the result
  built from the answer, or with the error of that request. The video call submits the
  fallback: when the submission fails it ends with that error; when the job is pending
  at the first \<open>n\<close> checks, it returns once check \<open>n + 1\<close> finds the job done, with the
  downloaded result (or the error of the download) and \<open>promptText\<close> the fallback, and
  it ends with the error of status request \<open>n + 1\<close> when that request fails.
\<close>

theorem empty_description_falls_back:
  assumes scene: "generateContent env (ScenePrompt level topic (specificContext topic)) = Inr promptRequest"
    and empty: "text' promptRequest = None \<or> text' promptRequest = Some []"
  shows "FALLBACK_PROMPT \<noteq> [] \<and>
         (\<exists>tr out. generateLessonPrompt env topic level Image = Some (tr, out)) \<and>
         (\<forall>r. generateContent env (ImagePrompt FALLBACK_PROMPT) = Inr r \<longrightarrow>
            generateLessonPrompt env topic level Image =
              Some ([GenerateContent (ScenePrompt level topic (specificContext topic)),
                     GenerateContent (ImagePrompt FALLBACK_PROMPT)],
                    Inr \<lparr>url = imageUrl_of r, promptText = FALLBACK_PROMPT\<rparr>)) \<and>
         (\<forall>e. generateContent env (ImagePrompt FALLBACK_PROMPT) = Inl e \<longrightarrow>
            generateLessonPrompt env topic level Image =
              Some ([GenerateContent (ScenePrompt level topic (specificContext topic)),
                     GenerateContent (ImagePrompt FALLBACK_PROMPT)], Inl e)) \<and>
         (\<forall>e. generateVideos env FALLBACK_PROMPT = Inl e \<longrightarrow>
            generateLessonPrompt env topic level Video =
              Some ([GenerateContent (ScenePrompt level topic (specificContext topic)),
                     GenerateVideos FALLBACK_PROMPT], Inl e)) \<and>
         (\<forall>ops n. generateVideos env FALLBACK_PROMPT = Inr (ops 0) \<and>
              (\<forall>k<n. done' (ops k) \<noteq> Some True \<and>
                      getVideosOperation env k (ops k) = Inr (ops (Suc k))) \<longrightarrow>
            (\<forall>blob. done' (ops n) = Some True \<and>
                 fetch env (download_url env (ops n)) = Inr blob \<longrightarrow>
               generateLessonPrompt env topic level Video =
                 Some ([GenerateContent (ScenePrompt level topic (specificContext topic)),
                        GenerateVideos FALLBACK_PROMPT] @ poll_trace ops 0 n @
                       [Fetch (download_url env (ops n)), CreateObjectURL blob],
                       Inr \<lparr>url = createObjectURL env blob, promptText = FALLBACK_PROMPT\<rparr>)) \<and>
            (\<forall>e. done' (ops n) = Some True \<and>
                 fetch env (download_url env (ops n)) = Inl e \<longrightarrow>
               generateLessonPrompt env topic level Video =
                 Some ([GenerateContent (ScenePrompt level topic (specificContext topic)),
                        GenerateVideos FALLBACK_PROMPT] @ poll_trace ops 0 n @
                       [Fetch (download_url env (ops n))], Inl e)) \<and>
            (\<forall>e. done' (ops n) \<noteq> Some True \<and> getVideosOperation env n (ops n) = Inl e \<longrightarrow>
               generateLessonPrompt env topic level Video =
                 Some ([GenerateContent (ScenePrompt level topic (specificContext topic)),
                        GenerateVideos FALLBACK_PROMPT] @ poll_trace ops 0 (Suc n), Inl e))) \<and>
         (\<forall>type tr out. generateLessonPrompt env topic level type = Some (tr, out) \<longrightarrow>
            (\<exists>more. tr = [GenerateContent (ScenePrompt level topic (specificContext topic)),
                           media_request type FALLBACK_PROMPT] @ more \<and>
                    (\<forall>ev\<in>set more. \<forall>p. \<not> is_media_request ev p)) \<and>
            (\<forall>res. out = Inr res \<longrightarrow> promptText res = FALLBACK_PROMPT))"
proof -
  let ?scene = "GenerateContent (ScenePrompt level topic (specificContext topic))"
  have vp: "visualPrompt promptRequest = FALLBACK_PROMPT"
    by (rule visualPrompt_empty [OF empty])
  have image: "generateLessonPrompt env topic level Image = image_branch env FALLBACK_PROMPT [?scene]"
    and video: "generateLessonPrompt env topic level Video = video_branch env FALLBACK_PROMPT [?scene]"
    using scene by (simp_all add: generateLessonPrompt_def vp)
  have nonempty: "FALLBACK_PROMPT \<noteq> []"
    by (simp add: FALLBACK_PROMPT_def)
  have image_returns: "\<exists>tr out. generateLessonPrompt env topic level Image = Some (tr, out)"
    by (simp add: image image_branch_def split: sum.splits)
  have image_ok: "\<forall>r. generateContent env (ImagePrompt FALLBACK_PROMPT) = Inr r \<longrightarrow>
            generateLessonPrompt env topic level Image =
              Some ([?scene, GenerateContent (ImagePrompt FALLBACK_PROMPT)],
                    Inr \<lparr>url = imageUrl_of r, promptText = FALLBACK_PROMPT\<rparr>)"
    by (simp add: image image_branch_def)
  have image_err: "\<forall>e. generateContent env (ImagePrompt FALLBACK_PROMPT) = Inl e \<longrightarrow>
            generateLessonPrompt env topic level Image =
              Some ([?scene, GenerateContent (ImagePrompt FALLBACK_PROMPT)], Inl e)"
    by (simp add: image image_branch_def)
  have submit_err: "\<forall>e. generateVideos env FALLBACK_PROMPT = Inl e \<longrightarrow>
            generateLessonPrompt env topic level Video =
              Some ([?scene, GenerateVideos FALLBACK_PROMPT], Inl e)"
    by (simp add: video video_branch_def)
  have video_runs: "\<forall>ops n. generateVideos env FALLBACK_PROMPT = Inr (ops 0) \<and>
              (\<forall>k<n. done' (ops k) \<noteq> Some True \<and>
                      getVideosOperation env k (ops k) = Inr (ops (Suc k))) \<longrightarrow>
            (\<forall>blob. done' (ops n) = Some True \<and>
                 fetch env (download_url env (ops n)) = Inr blob \<longrightarrow>
               generateLessonPrompt env topic level Video =
                 Some ([?scene, GenerateVideos FALLBACK_PROMPT] @ poll_trace ops 0 n @
                       [Fetch (download_url env (ops n)), CreateObjectURL blob],
                       Inr \<lparr>url = createObjectURL env blob, promptText = FALLBACK_PROMPT\<rparr>)) \<and>
            (\<forall>e. done' (ops n) = Some True \<and>
                 fetch env (download_url env (ops n)) = Inl e \<longrightarrow>
               generateLessonPrompt env topic level Video =
                 Some ([?scene, GenerateVideos FALLBACK_PROMPT] @ poll_trace ops 0 n @
                       [Fetch (download_url env (ops n))], Inl e)) \<and>
            (\<forall>e. done' (ops n) \<noteq> Some True \<and> getVideosOperation env n (ops n) = Inl e \<longrightarrow>
               generateLessonPrompt env topic level Video =
                 Some ([?scene, GenerateVideos FALLBACK_PROMPT] @ poll_trace ops 0 (Suc n), Inl e))"
  proof (intro allI impI conjI)
    fix ops :: "nat \<Rightarrow> Operation" and n blob
    assume a: "generateVideos env FALLBACK_PROMPT = Inr (ops 0) \<and>
              (\<forall>k<n. done' (ops k) \<noteq> Some True \<and>
                      getVideosOperation env k (ops k) = Inr (ops (Suc k)))"
      and b: "done' (ops n) = Some True \<and> fetch env (download_url env (ops n)) = Inr blob"
    from a b have "video_branch env FALLBACK_PROMPT [?scene] =
           Some ([?scene] @ [GenerateVideos FALLBACK_PROMPT] @ poll_trace ops 0 n @
                 [Fetch (download_url env (ops n)), CreateObjectURL blob],
                 Inr \<lparr>url = createObjectURL env blob, promptText = FALLBACK_PROMPT\<rparr>)"
      by (intro video_branch_finishes) simp_all
    then show "generateLessonPrompt env topic level Video =
                 Some ([?scene, GenerateVideos FALLBACK_PROMPT] @ poll_trace ops 0 n @
                       [Fetch (download_url env (ops n)), CreateObjectURL blob],
                       Inr \<lparr>url = createObjectURL env blob, promptText = FALLBACK_PROMPT\<rparr>)"
      by (simp add: video)
  next
    fix ops :: "nat \<Rightarrow> Operation" and n e
    assume a: "generateVideos env FALLBACK_PROMPT = Inr (ops 0) \<and>
              (\<forall>k<n. done' (ops k) \<noteq> Some True \<and>
                      getVideosOperation env k (ops k) = Inr (ops (Suc k)))"
      and b: "done' (ops n) = Some True \<and> fetch env (download_url env (ops n)) = Inl e"
    from a b have "video_branch env FALLBACK_PROMPT [?scene] =
           Some ([?scene] @ [GenerateVideos FALLBACK_PROMPT] @ poll_trace ops 0 n @
                 [Fetch (download_url env (ops n))], Inl e)"
      by (intro video_branch_download_fails) simp_all
    then show "generateLessonPrompt env topic level Video =
                 Some ([?scene, GenerateVideos FALLBACK_PROMPT] @ poll_trace ops 0 n @
                       [Fetch (download_url env (ops n))], Inl e)"
      by (simp add: video)
  next
    fix ops :: "nat \<Rightarrow> Operation" and n e
    assume a: "generateVideos env FALLBACK_PROMPT = Inr (ops 0) \<and>
              (\<forall>k<n. done' (ops k) \<noteq> Some True \<and>
                      getVideosOperation env k (ops k) = Inr (ops (Suc k)))"
      and b: "done' (ops n) \<noteq> Some True \<and> getVideosOperation env n (ops n) = Inl e"
    from a b have "video_branch env FALLBACK_PROMPT [?scene] =
           Some ([?scene] @ [GenerateVideos FALLBACK_PROMPT] @ poll_trace ops 0 (Suc n), Inl e)"
      by (intro video_branch_fails) simp_all
    then show "generateLessonPrompt env topic level Video =
                 Some ([?scene, GenerateVideos FALLBACK_PROMPT] @ poll_trace ops 0 (Suc n), Inl e)"
      by (simp add: video)
  qed
  have returned: "\<forall>type tr out. generateLessonPrompt env topic level type = Some (tr, out) \<longrightarrow>
            (\<exists>more. tr = [?scene, media_request type FALLBACK_PROMPT] @ more \<and>
                    (\<forall>ev\<in>set more. \<forall>p. \<not> is_media_request ev p)) \<and>
            (\<forall>res. out = Inr res \<longrightarrow> promptText res = FALLBACK_PROMPT)"
  proof (intro allI impI)
    fix type tr out
    assume ret: "generateLessonPrompt env topic level type = Some (tr, out)"
    from generateLessonPrompt_trace [OF scene ret] vp
    show "(\<exists>more. tr = [?scene, media_request type FALLBACK_PROMPT] @ more \<and>
                    (\<forall>ev\<in>set more. \<forall>p. \<not> is_media_request ev p)) \<and>
            (\<forall>res. out = Inr res \<longrightarrow> promptText res = FALLBACK_PROMPT)"
      by auto
  qed
  from nonempty image_returns image_ok image_err submit_err video_runs returned show ?thesis
    by (intro conjI)
qed

theorem empty_description_falls_back_witness:
  "generateLessonPrompt
     (example_env (example_answer (Some []) (response_with_parts [inline_part ''QUJD'']) None
        no_candidates))
     ''Nature'' Beginner Image =
   Some ([GenerateContent (ScenePrompt Beginner ''Nature'' []),
          GenerateContent (ImagePrompt
            ''A professional office scene showing a business analyst working on project requirements.'')],
         Inr \<lparr>url = ''data:image/png;base64,QUJD'',
              promptText =
                ''A professional office scene showing a business analyst working on project requirements.''\<rparr>) \<and>
   generateLessonPrompt
     (example_env (example_answer None no_candidates None no_candidates))
     ''Nature'' Beginner Video =
   Some ([GenerateContent (ScenePrompt Beginner ''Nature'' []),
          GenerateVideos
            ''A professional office scene showing a business analyst working on project requirements.'',
          Delay 10000, GetVideosOperation (example_operation 0),
          Delay 10000, GetVideosOperation (example_operation 1),
          Delay 10000, GetVideosOperation (example_operation 2),
          Fetch ''https://video.test/1?alt=media&key=KEY'', CreateObjectURL [1, 2, 3]],
         Inr \<lparr>url = ''blob:1'',
              promptText =
                ''A professional office scene showing a business analyst working on project requirements.''\<rparr>)"
proof -
  let ?r = "response_with_parts [inline_part ''QUJD'']"
  let ?env = "example_env (example_answer (Some []) ?r None no_candidates)"
  let ?scene = "\<lparr>text' = Some [], candidates = None\<rparr>"
  have scene: "generateContent ?env (ScenePrompt Beginner ''Nature'' (specificContext ''Nature'')) = Inr ?scene"
    by (simp add: example_env_def example_answer_def)
  have empty: "text' ?scene = None \<or> text' ?scene = Some []"
    by simp
  have img: "generateContent ?env (ImagePrompt FALLBACK_PROMPT) = Inr ?r"
    by (simp add: example_env_def example_answer_def)
  have plain: "specificContext ''Nature'' = []"
    by (simp add: specificContext_def)
  have link: "imageUrl_of ?r = ''data:image/png;base64,QUJD''"
    by (simp add: imageUrl_of_def response_parts_def first_candidate_parts_def
        response_with_parts_def inline_part_def template_def)
  from empty_description_falls_back [OF scene empty] img
  have "generateLessonPrompt ?env ''Nature'' Beginner Image =
      Some ([GenerateContent (ScenePrompt Beginner ''Nature'' (specificContext ''Nature'')),
             GenerateContent (ImagePrompt FALLBACK_PROMPT)],
            Inr \<lparr>url = imageUrl_of ?r, promptText = FALLBACK_PROMPT\<rparr>)"
    by blast
  then have first: "generateLessonPrompt ?env ''Nature'' Beginner Image =
      Some ([GenerateContent (ScenePrompt Beginner ''Nature'' []),
             GenerateContent (ImagePrompt
               ''A professional office scene showing a business analyst working on project requirements.'')],
            Inr \<lparr>url = ''data:image/png;base64,QUJD'',
                 promptText =
                   ''A professional office scene showing a business analyst working on project requirements.''\<rparr>)"
    by (simp only: plain link FALLBACK_PROMPT_def)

  let ?env2 = "example_env (example_answer None no_candidates None no_candidates)"
  let ?scene2 = "\<lparr>text' = None, candidates = None\<rparr>"
  have scene2: "generateContent ?env2 (ScenePrompt Beginner ''Nature'' (specificContext ''Nature'')) = Inr ?scene2"
    by (simp add: example_env_def example_answer_def)
  have empty2: "text' ?scene2 = None \<or> text' ?scene2 = Some []"
    by simp
  have submit: "generateVideos ?env2 FALLBACK_PROMPT = Inr (example_operation 0) \<and>
      (\<forall>k<3. done' (example_operation k) \<noteq> Some True \<and>
         getVideosOperation ?env2 k (example_operation k) = Inr (example_operation (Suc k)))"
    by (simp add: example_env_def example_operation_def)
  have finished: "done' (example_operation 3) = Some True \<and>
      fetch ?env2 (download_url ?env2 (example_operation 3)) = Inr [1, 2, 3]"
    by (simp add: example_env_def example_operation_def)
  have address: "download_url ?env2 (example_operation 3) = ''https://video.test/1?alt=media&key=KEY''"
    by (simp add: download_url_def video_uri_def template_def example_env_def example_operation_def)
  have made: "createObjectURL ?env2 [1, 2, 3] = ''blob:1''"
    by (simp add: example_env_def)
  have trace: "poll_trace example_operation 0 3 =
      [Delay 10000, GetVideosOperation (example_operation 0),
       Delay 10000, GetVideosOperation (example_operation 1),
       Delay 10000, GetVideosOperation (example_operation 2)]"
    by (simp add: poll_trace_def numeral_3_eq_3 numeral_2_eq_2)
  from empty_description_falls_back [OF scene2 empty2] submit finished
  have "generateLessonPrompt ?env2 ''Nature'' Beginner Video =
      Some ([GenerateContent (ScenePrompt Beginner ''Nature'' (specificContext ''Nature'')),
             GenerateVideos FALLBACK_PROMPT] @ poll_trace example_operation 0 3 @
            [Fetch (download_url ?env2 (example_operation 3)), CreateObjectURL [1, 2, 3]],
            Inr \<lparr>url = createObjectURL ?env2 [1, 2, 3], promptText = FALLBACK_PROMPT\<rparr>)"
    by blast
  then have second: "generateLessonPrompt ?env2 ''Nature'' Beginner Video =
      Some ([GenerateContent (ScenePrompt Beginner ''Nature'' []),
          GenerateVideos
            ''A professional office scene showing a business analyst working on project requirements.'',
          Delay 10000, GetVideosOperation (example_operation 0),
          Delay 10000, GetVideosOperation (example_operation 1),
          Delay 10000, GetVideosOperation (example_operation 2),
          Fetch ''https://video.test/1?alt=media&key=KEY'', CreateObjectURL [1, 2, 3]],
         Inr \<lparr>url = ''blob:1'',
              promptText =
                ''A professional office scene showing a business analyst working on project requirements.''\<rparr>)"
    by (simp only: plain address made trace FALLBACK_PROMPT_def append.simps)
  from first second show ?thesis
    by (rule conjI)
qed

subsection \<open>The URL of an image\<close>

lemma image_loop_none:
  "\<forall>p\<in>set ps. inlineData p = None \<Longrightarrow> image_loop ps u = u"
  by (induction ps) simp_all

lemma image_loop_first:
  "\<forall>q\<in>set before. inlineData q = None \<Longrightarrow> inlineData p = Some d \<Longrightarrow>
   image_loop (before @ p # after) u = ''data:image/png;base64,'' @ template (data d)"
  by (induction before) simp_all

text \<open>
  Claim C6. In the image branch, when no part of the response (the parts of its first
  candidate, none when a link of that chain is missing) has inline data, the \<open>url\<close> of
  the result is the empty string; otherwise it is \<open>data:image/png;base64,\<close> followed by
  the data of the first part that has inline data.
\<close>

theorem image_url_from_first_inline_part:
  assumes scene: "generateContent env (ScenePrompt level topic (specificContext topic)) = Inr promptRequest"
    and img: "generateContent env (ImagePrompt (visualPrompt promptRequest)) = Inr r"
  shows "\<exists>res. generateLessonPrompt env topic level Image =
             Some ([GenerateContent (ScenePrompt level topic (specificContext topic)),
                    GenerateContent (ImagePrompt (visualPrompt promptRequest))], Inr res) \<and>
           promptText res = visualPrompt promptRequest \<and>
           ((\<forall>p\<in>set (response_parts r). inlineData p = None) \<longrightarrow> url res = []) \<and>
           (\<forall>before p d after.
              response_parts r = before @ p # after \<and> (\<forall>q\<in>set before. inlineData q = None) \<and>
              inlineData p = Some d \<longrightarrow>
              url res = ''data:image/png;base64,'' @ template (data d))"
proof -
  let ?res = "\<lparr>url = imageUrl_of r, promptText = visualPrompt promptRequest\<rparr>"
  have run: "generateLessonPrompt env topic level Image =
             Some ([GenerateContent (ScenePrompt level topic (specificContext topic)),
                    GenerateContent (ImagePrompt (visualPrompt promptRequest))], Inr ?res)"
    using scene img by (simp add: generateLessonPrompt_def image_branch_def)
  have none: "(\<forall>p\<in>set (response_parts r). inlineData p = None) \<longrightarrow> url ?res = []"
    by (simp add: imageUrl_of_def image_loop_none)
  have first: "\<forall>before p d after.
              response_parts r = before @ p # after \<and> (\<forall>q\<in>set before. inlineData q = None) \<and>
              inlineData p = Some d \<longrightarrow>
              url ?res = ''data:image/png;base64,'' @ template (data d)"
    by (simp add: imageUrl_of_def image_loop_first)
  from run none first show ?thesis
    by (intro exI [of _ ?res]) simp
qed

theorem image_url_from_first_inline_part_witness:
  "(\<exists>tr res.
      generateLessonPrompt
        (example_env (example_answer (Some ''A forest at dawn'')
           (response_with_parts [text_part, inline_part ''QUJD'', inline_part ''REVG'']) None
           no_candidates))
        ''Nature'' Beginner Image = Some (tr, Inr res) \<and>
      url res = ''data:image/png;base64,QUJD'') \<and>
   (\<exists>tr res.
      generateLessonPrompt
        (example_env (example_answer (Some ''A forest at dawn'')
           (response_with_parts [text_part, text_part]) None no_candidates))
        ''Nature'' Beginner Image = Some (tr, Inr res) \<and>
      url res = [])"
proof -
  let ?scene = "\<lparr>text' = Some ''A forest at dawn'', candidates = None\<rparr>"
  let ?r1 = "response_with_parts [text_part, inline_part ''QUJD'', inline_part ''REVG'']"
  let ?r2 = "response_with_parts [text_part, text_part]"
  let ?env1 = "example_env (example_answer (Some ''A forest at dawn'') ?r1 None no_candidates)"
  let ?env2 = "example_env (example_answer (Some ''A forest at dawn'') ?r2 None no_candidates)"
  have scene1: "generateContent ?env1 (ScenePrompt Beginner ''Nature'' (specificContext ''Nature'')) = Inr ?scene"
    and img1: "generateContent ?env1 (ImagePrompt (visualPrompt ?scene)) = Inr ?r1"
    and scene2: "generateContent ?env2 (ScenePrompt Beginner ''Nature'' (specificContext ''Nature'')) = Inr ?scene"
    and img2: "generateContent ?env2 (ImagePrompt (visualPrompt ?scene)) = Inr ?r2"
    by (simp_all add: example_env_def example_answer_def)
  have parts1: "response_parts ?r1 = [text_part] @ inline_part ''QUJD'' # [inline_part ''REVG'']"
    and parts2: "response_parts ?r2 = [text_part, text_part]"
    by (simp_all add: response_parts_def first_candidate_parts_def response_with_parts_def)
  have shape: "(\<forall>q\<in>set [text_part]. inlineData q = None) \<and>
      inlineData (inline_part ''QUJD'') = Some \<lparr>data = Some ''QUJD''\<rparr>"
    by (simp add: text_part_def inline_part_def)
  have none: "\<forall>p\<in>set (response_parts ?r2). inlineData p = None"
    by (simp add: response_parts_def first_candidate_parts_def response_with_parts_def
        text_part_def)
  from image_url_from_first_inline_part [OF scene1 img1] parts1 shape
  have first: "\<exists>tr res. generateLessonPrompt ?env1 ''Nature'' Beginner Image = Some (tr, Inr res) \<and>
      url res = ''data:image/png;base64,'' @ template (data \<lparr>data = Some ''QUJD''\<rparr>)"
    by blast
  from image_url_from_first_inline_part [OF scene2 img2] none
  have second: "\<exists>tr res. generateLessonPrompt ?env2 ''Nature'' Beginner Image = Some (tr, Inr res) \<and>
      url res = []"
    by blast
  from first second show ?thesis
    by (simp add: template_def)
qed

subsection \<open>Speech\<close>

text \<open>
  The data that \<open>generateSpeech\<close> looks at is that of the first part of the first
  candidate; there is none when a link of the chain is missing.
\<close>

lemma base64Audio_of_first_part:
  "candidates r = Some (c # cs) \<Longrightarrow> content c = Some ct \<Longrightarrow> parts ct = Some (p # ps) \<Longrightarrow>
   base64Audio_of r = Option.bind (inlineData p) data"
  by (simp add: base64Audio_of_def first_candidate_parts_def)

lemma base64Audio_of_no_first_part:
  "candidates r = None \<or> candidates r = Some [] \<or>
   (\<exists>c cs. candidates r = Some (c # cs) \<and>
      (content c = None \<or> (\<exists>ct. content c = Some ct \<and> (parts ct = None \<or> parts ct = Some [])))) \<Longrightarrow>
   base64Audio_of r = None"
  by (auto simp: base64Audio_of_def first_candidate_parts_def)

text \<open>
  Claim C7. Given a response to the speech request, \<open>generateSpeech\<close> raises
  \<open>Error "No audio data received"\<close> exactly when the first part of the first candidate
  carries no inline audio data, where data that is the empty string counts as none,
  and otherwise returns that data as it is. The data looked at is the inline data of
  the first part of the first candidate.
\<close>

theorem generateSpeech_error_iff_no_payload:
  assumes "generateContent env (SpeechPrompt (''Say professionally: '' @ txt)) = Inr r"
  shows "(generateSpeech env txt = Inl (Error ''No audio data received'') \<longleftrightarrow>
            base64Audio_of r = None \<or> base64Audio_of r = Some []) \<and>
         (\<forall>b. base64Audio_of r = Some b \<and> b \<noteq> [] \<longrightarrow> generateSpeech env txt = Inr b) \<and>
         (\<forall>c cs ct p ps. candidates r = Some (c # cs) \<and> content c = Some ct \<and>
            parts ct = Some (p # ps) \<longrightarrow> base64Audio_of r = Option.bind (inlineData p) data)"
proof (intro conjI allI impI)
  show "generateSpeech env txt = Inl (Error ''No audio data received'') \<longleftrightarrow>
            base64Audio_of r = None \<or> base64Audio_of r = Some []"
    using assms by (auto simp: generateSpeech_def split: option.splits)
next
  fix b assume "base64Audio_of r = Some b \<and> b \<noteq> []"
  with assms show "generateSpeech env txt = Inr b"
    by (simp add: generateSpeech_def)
next
  fix c cs ct p ps
  assume "candidates r = Some (c # cs) \<and> content c = Some ct \<and> parts ct = Some (p # ps)"
  then show "base64Audio_of r = Option.bind (inlineData p) data"
    by (simp add: base64Audio_of_first_part)
qed

theorem generateSpeech_error_iff_no_payload_witness:
  "generateSpeech
     (example_env (example_answer None no_candidates None (response_with_parts [inline_part ''UklGRg==''])))
     ''Hello'' = Inr ''UklGRg=='' \<and>
   generateSpeech
     (example_env (example_answer None no_candidates None (response_with_parts [text_part, inline_part ''UklGRg==''])))
     ''Hello'' = Inl (Error ''No audio data received'') \<and>
   generateSpeech
     (example_env (example_answer None no_candidates None (response_with_parts [inline_part []])))
     ''Hello'' = Inl (Error ''No audio data received'')"
proof -
  let ?r1 = "response_with_parts [inline_part ''UklGRg=='']"
  let ?r2 = "response_with_parts [text_part, inline_part ''UklGRg=='']"
  let ?r3 = "response_with_parts [inline_part []]"
  have answers:
    "generateContent (example_env (example_answer None no_candidates None ?r1))
       (SpeechPrompt (''Say professionally: '' @ ''Hello'')) = Inr ?r1"
    "generateContent (example_env (example_answer None no_candidates None ?r2))
       (SpeechPrompt (''Say professionally: '' @ ''Hello'')) = Inr ?r2"
    "generateContent (example_env (example_answer None no_candidates None ?r3))
       (SpeechPrompt (''Say professionally: '' @ ''Hello'')) = Inr ?r3"
    by (simp_all add: example_env_def example_answer_def)
  have payloads: "base64Audio_of ?r1 = Some ''UklGRg=='' \<and> ''UklGRg=='' \<noteq> []"
    "base64Audio_of ?r2 = None" "base64Audio_of ?r3 = Some []"
    by (simp_all add: base64Audio_of_def first_candidate_parts_def response_with_parts_def
        inline_part_def text_part_def)
  from generateSpeech_error_iff_no_payload [OF answers(1)] payloads(1)
    generateSpeech_error_iff_no_payload [OF answers(2)] payloads(2)
    generateSpeech_error_iff_no_payload [OF answers(3)] payloads(3)
  show ?thesis by blast
qed

subsection \<open>Evaluation\<close>

text \<open>
  Claim C8. Given a response to the evaluation request, \<open>evaluateDescription\<close> is
  \<^verbatim>\<open>JSON.parse\<close> of the response text when that is not empty: the parse error when the
  text is not JSON, and the parsed value otherwise, whatever it is. For an absent or
  empty text it returns the empty object, which lacks every required field. Nothing
  checks the fields. The platform's \<^verbatim>\<open>JSON.parse\<close> is taken to parse \<^verbatim>\<open>{}\<close> to the
  empty object.
\<close>

theorem evaluateDescription_parses_or_defaults:
  assumes answer: "generateContent env
                     (EvaluatePrompt originalPrompt described (levelContext level)) = Inr r"
    and platform: "JSON_parse env ''{}'' = Inr (JObject [])"
  shows "(\<forall>t. text' r = Some t \<and> t \<noteq> [] \<longrightarrow>
            evaluateDescription env described originalPrompt level = JSON_parse env t) \<and>
         (text' r = None \<or> text' r = Some [] \<longrightarrow>
            evaluateDescription env described originalPrompt level = Inr (JObject []) \<and>
            \<not> has_required_fields (JObject []))"
proof (intro conjI allI impI)
  fix t assume "text' r = Some t \<and> t \<noteq> []"
  with answer show "evaluateDescription env described originalPrompt level = JSON_parse env t"
    by (simp add: evaluateDescription_def or_else_def)
next
  assume "text' r = None \<or> text' r = Some []"
  then have "or_else (text' r) ''{}'' = ''{}''"
    by (auto simp: or_else_def)
  with answer platform
  show "evaluateDescription env described originalPrompt level = Inr (JObject [])"
    by (simp add: evaluateDescription_def)
next
  show "\<not> has_required_fields (JObject [])"
    by (simp add: has_required_fields_def)
qed

theorem evaluateDescription_parses_or_defaults_witness:
  "evaluateDescription (example_env (example_answer None no_candidates (Some SCORE_150) no_candidates))
     ''Trees in the mist'' ''A forest at dawn'' Beginner = Inr (JObject [(''score'', JNumber 150)]) \<and>
   \<not> has_required_fields (JObject [(''score'', JNumber 150)]) \<and>
   evaluateDescription (example_env (example_answer None no_candidates (Some ''<html>'') no_candidates))
     ''Trees in the mist'' ''A forest at dawn'' Beginner = Inl SyntaxError \<and>
   evaluateDescription (example_env (example_answer None no_candidates (Some []) no_candidates))
     ''Trees in the mist'' ''A forest at dawn'' Beginner = Inr (JObject []) \<and>
   evaluateDescription (example_env (example_answer None no_candidates None no_candidates))
     ''Trees in the mist'' ''A forest at dawn'' Beginner = Inr (JObject [])"
proof -
  let ?env = "\<lambda>t. example_env (example_answer None no_candidates t no_candidates)"
  have answer: "generateContent (?env t)
      (EvaluatePrompt ''A forest at dawn'' ''Trees in the mist'' (levelContext Beginner)) =
      Inr \<lparr>text' = t, candidates = None\<rparr>" for t
    by (simp add: example_env_def example_answer_def)
  have platform: "JSON_parse (?env t) ''{}'' = Inr (JObject [])" for t
    by (simp add: example_env_def example_parse_def)
  have parse1: "JSON_parse (?env (Some SCORE_150)) SCORE_150 = Inr (JObject [(''score'', JNumber 150)])"
    and parse2: "JSON_parse (?env (Some ''<html>'')) ''<html>'' = Inl SyntaxError"
    by (simp_all add: example_env_def example_parse_def SCORE_150_def SCORE_85_def)
  have nonempty: "SCORE_150 \<noteq> []" "''<html>'' \<noteq> []"
    by (simp_all add: SCORE_150_def)
  have lacking: "\<not> has_required_fields (JObject [(''score'', JNumber 150)])"
    by (simp add: has_required_fields_def)
  from evaluateDescription_parses_or_defaults [OF answer [of "Some SCORE_150"] platform [of "Some SCORE_150"]]
    nonempty(1) parse1
  have r1: "evaluateDescription (?env (Some SCORE_150)) ''Trees in the mist'' ''A forest at dawn'' Beginner =
      Inr (JObject [(''score'', JNumber 150)])"
    by simp
  from evaluateDescription_parses_or_defaults [OF answer [of "Some ''<html>''"] platform [of "Some ''<html>''"]]
    nonempty(2) parse2
  have r2: "evaluateDescription (?env (Some ''<html>'')) ''Trees in the mist'' ''A forest at dawn'' Beginner =
      Inl SyntaxError"
    by simp
  from evaluateDescription_parses_or_defaults [OF answer [of "Some []"] platform [of "Some []"]]
  have r3: "evaluateDescription (?env (Some [])) ''Trees in the mist'' ''A forest at dawn'' Beginner =
      Inr (JObject [])"
    by simp
  from evaluateDescription_parses_or_defaults [OF answer [of None] platform [of None]]
  have r4: "evaluateDescription (?env None) ''Trees in the mist'' ''A forest at dawn'' Beginner =
      Inr (JObject [])"
    by simp
  from r1 lacking r2 r3 r4 show ?thesis by simp
qed

section \<open>Properties of the history\<close>

text \<open>
  The history after a submission: unchanged when the handler returns early or the
  evaluation fails, and otherwise the new item in front of the old list.
\<close>

lemma handleSubmitDescription_history:
  "history (fst (handleSubmitDescription env s)) =
     (case currentPrompt s of
        None \<Rightarrow> history s
      | Some p \<Rightarrow>
          if trim (userText s) = [] then history s
          else (case evaluateDescription env (userText s) (description p) (difficulty s) of
                  Inl e \<Rightarrow> history s
                | Inr result \<Rightarrow>
                    \<lparr>item_id = randomId env, prompt = p, userDescription = userText s,
                     feedback = result, timestamp = now env\<rparr> # history s))"
  by (simp add: handleSubmitDescription_def Let_def split: option.splits sum.splits)

lemma example_evaluation:
  "evaluateDescription (example_env (example_answer None no_candidates (Some SCORE_150) no_candidates))
     (userText example_state) (description example_prompt) (difficulty example_state) =
   Inr (JObject [(''score'', JNumber 150)])"
  by (simp add: evaluateDescription_def example_env_def example_answer_def example_parse_def
      or_else_def SCORE_150_def)

lemma example_trim: "trim (userText example_state) \<noteq> []"
  by (simp add: example_state_def trim_def is_space_def)

lemma example_submit:
  "history (fst (handleSubmitDescription
      (example_env (example_answer None no_candidates (Some SCORE_150) no_candidates))
      example_state)) =
   [\<lparr>item_id = ''k3j9x0q2a'', prompt = example_prompt, userDescription = ''Trees in the mist'',
     feedback = JObject [(''score'', JNumber 150)], timestamp = 1700000000000\<rparr>]"
proof -
  let ?env = "example_env (example_answer None no_candidates (Some SCORE_150) no_candidates)"
  have cur: "currentPrompt example_state = Some example_prompt"
    by (simp add: example_state_def)
  have "history (fst (handleSubmitDescription ?env example_state)) =
      \<lparr>item_id = randomId ?env, prompt = example_prompt, userDescription = userText example_state,
       feedback = JObject [(''score'', JNumber 150)], timestamp = now ?env\<rparr> # history example_state"
    by (simp only: handleSubmitDescription_history cur option.case example_trim if_False
        example_evaluation sum.case)
  then show ?thesis
    by (simp add: example_state_def example_env_def)
qed

text \<open>
  Claim C9, as stated, fails. The claim is that the score of the feedback of every
  history item lies in \<open>[0, 100]\<close>. When the service answers the evaluation request
  with the text \<^verbatim>\<open>{"score":150}\<close>, the submission of a description stores a history
  item whose feedback has the score \<open>150\<close>.
\<close>

theorem history_score_out_of_range:
  "map feedback (history (fst (handleSubmitDescription
      (example_env (example_answer None no_candidates (Some SCORE_150) no_candidates))
      example_state))) = [JObject [(''score'', JNumber 150)]] \<and>
   score_of (JObject [(''score'', JNumber 150)]) = Some (JNumber 150) \<and>
   \<not> score_bounded (JObject [(''score'', JNumber 150)])"
  by (simp add: example_submit score_bounded_def score_of_def)

text \<open>
  Claim C9, amended. The handler stores the value \<open>evaluateDescription\<close> returned as it
  is, with no check of its score: the new history is that item in front of the old
  one. Hence, when every item of the history has a score in \<open>[0, 100]\<close> and every
  value the evaluation can return for this submission has one, every item of the
  history after the submission has one.
\<close>

theorem history_scores_as_returned:
  assumes inv: "\<forall>item\<in>set (history s). score_bounded (feedback item)"
    and service: "\<forall>p result. currentPrompt s = Some p \<and>
        evaluateDescription env (userText s) (description p) (difficulty s) = Inr result \<longrightarrow>
        score_bounded result"
  shows "(\<forall>item\<in>set (history (fst (handleSubmitDescription env s))). score_bounded (feedback item)) \<and>
         (\<forall>p result. currentPrompt s = Some p \<and> trim (userText s) \<noteq> [] \<and>
            evaluateDescription env (userText s) (description p) (difficulty s) = Inr result \<longrightarrow>
            history (fst (handleSubmitDescription env s)) =
              \<lparr>item_id = randomId env, prompt = p, userDescription = userText s,
               feedback = result, timestamp = now env\<rparr> # history s)"
proof (intro conjI ballI allI impI)
  fix item
  assume "item \<in> set (history (fst (handleSubmitDescription env s)))"
  then consider "item \<in> set (history s)"
    | p result where "currentPrompt s = Some p"
        "evaluateDescription env (userText s) (description p) (difficulty s) = Inr result"
        "feedback item = result"
    by (auto simp: handleSubmitDescription_history split: option.splits if_splits sum.splits)
  then show "score_bounded (feedback item)"
  proof cases
    case 1
    with inv show ?thesis by blast
  next
    case 2
    with service show ?thesis by blast
  qed
next
  fix p result
  assume "currentPrompt s = Some p \<and> trim (userText s) \<noteq> [] \<and>
            evaluateDescription env (userText s) (description p) (difficulty s) = Inr result"
  then show "history (fst (handleSubmitDescription env s)) =
              \<lparr>item_id = randomId env, prompt = p, userDescription = userText s,
               feedback = result, timestamp = now env\<rparr> # history s"
    by (simp add: handleSubmitDescription_history)
qed

lemma example_evaluation_85:
  "evaluateDescription (example_env (example_answer None no_candidates (Some SCORE_85) no_candidates))
     (userText example_state) (description example_prompt) (difficulty example_state) =
   Inr (JObject [(''score'', JNumber 85)])"
  by (simp add: evaluateDescription_def example_env_def example_answer_def example_parse_def
      or_else_def SCORE_85_def SCORE_150_def)

theorem history_scores_as_returned_witness:
  "history (fst (handleSubmitDescription
      (example_env (example_answer None no_candidates (Some SCORE_85) no_candidates))
      example_state)) =
   [\<lparr>item_id = ''k3j9x0q2a'', prompt = example_prompt, userDescription = ''Trees in the mist'',
     feedback = JObject [(''score'', JNumber 85)], timestamp = 1700000000000\<rparr>] \<and>
   score_bounded (JObject [(''score'', JNumber 85)])"
proof -
  let ?env = "example_env (example_answer None no_candidates (Some SCORE_85) no_candidates)"
  let ?item = "\<lparr>item_id = randomId ?env, prompt = example_prompt,
      userDescription = userText example_state,
      feedback = JObject [(''score'', JNumber 85)], timestamp = now ?env\<rparr>"
  have cur: "currentPrompt example_state = Some example_prompt"
    and old: "history example_state = []"
    by (simp_all add: example_state_def)
  have inv: "\<forall>item\<in>set (history example_state). score_bounded (feedback item)"
    by (simp add: old)
  have service: "\<forall>p result. currentPrompt example_state = Some p \<and>
      evaluateDescription ?env (userText example_state) (description p) (difficulty example_state) =
        Inr result \<longrightarrow> score_bounded result"
    by (auto simp: cur example_evaluation_85 score_bounded_def score_of_def)
  note fact = history_scores_as_returned [OF inv service]
  from fact cur example_trim example_evaluation_85
  have new: "history (fst (handleSubmitDescription ?env example_state)) = ?item # history example_state"
    by blast
  with fact have "score_bounded (feedback ?item)"
    by simp
  with new show ?thesis
    by (simp add: old example_state_def example_env_def)
qed

section \<open>The audio round trip\<close>

subsection \<open>Six-bit groups\<close>

text \<open>
  Four six-bit groups hold the same \<open>24\<close> bits as three bytes; reading the groups of a
  byte sequence gives the bytes back, also for the shorter last group.
\<close>

lemma regroup:
  "((n div 262144 * 64 + n div 4096 mod 64) * 64 + n div 64 mod 64) * 64 + n mod 64 = (n::nat)"
proof -
  have a: "n div 4096 = n div 64 div 64" and b: "n div 262144 = n div 64 div 64 div 64"
    by (simp_all add: div_mult2_eq [symmetric])
  show ?thesis
    unfolding a b by (simp only: div_mult_mod_eq)
qed

lemma split3:
  assumes "a < 256" "b < 256" "c < (256::nat)"
  shows "(a * 65536 + b * 256 + c) div 65536 = a"
    and "(a * 65536 + b * 256 + c) div 256 mod 256 = b"
    and "(a * 65536 + b * 256 + c) mod 256 = c"
proof -
  have low: "b * 256 + c < 65536" using assms by linarith
  show "(a * 65536 + b * 256 + c) div 65536 = a"
    by (rule div_nat_eqI) (use low in simp_all)
  have "(a * 65536 + b * 256 + c) div 256 = a * 256 + b"
    by (rule div_nat_eqI) (use assms in simp_all)
  moreover have "(a * 256 + b) mod 256 = b"
    using assms by simp
  ultimately show "(a * 65536 + b * 256 + c) div 256 mod 256 = b" by simp
  have "(a * 65536 + b * 256 + c) = (a * 256 + b) * 256 + c" by simp
  then show "(a * 65536 + b * 256 + c) mod 256 = c"
    using assms by (simp only: mod_mult_self3 mod_less)
qed


lemma regroup2: "(n div 4096 * 64 + n div 64 mod 64) * 64 + n mod 64 = (n::nat)"
proof -
  have a: "n div 4096 = n div 64 div 64"
    by (simp add: div_mult2_eq [symmetric])
  show ?thesis
    unfolding a by (simp only: div_mult_mod_eq)
qed

lemma split2:
  assumes "a < 256" "b < (256::nat)"
  shows "(a * 256 + b) * 4 div 4 div 256 = a" and "(a * 256 + b) * 4 div 4 mod 256 = b"
  using assms by simp_all

lemma unat_byte_less: "unat (b::byte) < 256"
proof -
  have "unat b < 2 ^ LENGTH(8)"
    by (rule unsigned_less)
  then show ?thesis by simp
qed

lemma decode_quad:
  "decode_sextets (n div 262144 # n div 4096 mod 64 # n div 64 mod 64 # n mod 64 # rest) =
   char_of (n div 65536) # char_of (n div 256 mod 256) # char_of (n mod 256) # decode_sextets rest"
  by (simp only: decode_sextets.simps Let_def regroup)

lemma decode_triple:
  "decode_sextets [n div 4096, n div 64 mod 64, n mod 64] =
   [char_of (n div 4 div 256), char_of (n div 4 mod 256)]"
  by (simp only: decode_sextets.simps Let_def regroup2)

lemma decode_pair:
  "decode_sextets [n div 64, n mod 64] = [char_of (n div 16)]"
  by (simp only: decode_sextets.simps div_mult_mod_eq)

lemma decode_sextets_of: "decode_sextets (sextets_of bs) = map (\<lambda>b. char_of (unat b)) bs"
proof (induction bs rule: sextets_of.induct)
  case (1 a b c rest)
  let ?n = "unat a * 65536 + unat b * 256 + unat c"
  have "decode_sextets (sextets_of (a # b # c # rest)) =
        char_of (?n div 65536) # char_of (?n div 256 mod 256) # char_of (?n mod 256) #
        decode_sextets (sextets_of rest)"
    by (simp only: sextets_of.simps Let_def decode_quad)
  also have "\<dots> = char_of (unat a) # char_of (unat b) # char_of (unat c) #
        decode_sextets (sextets_of rest)"
    by (simp only: split3 [OF unat_byte_less unat_byte_less unat_byte_less])
  finally show ?case
    by (simp add: "1.IH")
next
  case (2 a b)
  let ?n = "(unat a * 256 + unat b) * 4"
  have "decode_sextets (sextets_of [a, b]) = [char_of (?n div 4 div 256), char_of (?n div 4 mod 256)]"
    by (simp only: sextets_of.simps Let_def decode_triple)
  also have "\<dots> = [char_of (unat a), char_of (unat b)]"
    by (simp only: split2 [OF unat_byte_less unat_byte_less])
  finally show ?case by simp
next
  case (3 a)
  have "decode_sextets (sextets_of [a]) = [char_of (unat a * 16 div 16)]"
    by (simp only: sextets_of.simps Let_def decode_pair)
  then show ?case by simp
next
  case 4
  show ?case by simp
qed

lemma sextets_of_bound: "\<forall>k\<in>set (sextets_of bs). k < 64"
proof (induction bs rule: sextets_of.induct)
  case (1 a b c rest)
  have "unat a * 65536 + unat b * 256 + unat c < 64 * 262144"
    using unat_byte_less [of a] unat_byte_less [of b] unat_byte_less [of c] by linarith
  then have "(unat a * 65536 + unat b * 256 + unat c) div 262144 < 64"
    by (rule less_mult_imp_div_less)
  with "1.IH" show ?case by (simp add: Let_def)
next
  case (2 a b)
  have "unat a * 256 + unat b < 65536"
    using unat_byte_less [of a] unat_byte_less [of b] by linarith
  then have "(unat a * 256 + unat b) * 4 < 64 * 4096"
    by simp
  then have "(unat a * 256 + unat b) * 4 div 4096 < 64"
    by (rule less_mult_imp_div_less) 
  then show ?case by (simp add: Let_def)
next
  case (3 a)
  have "unat a * 16 < 64 * 64"
    using unat_byte_less [of a] by linarith
  then have "unat a * 16 div 64 < 64"
    by (rule less_mult_imp_div_less)
  then show ?case by (simp add: Let_def)
next
  case 4
  show ?case by simp
qed

lemma length_sextets_of:
  "length (sextets_of bs) = 4 * (length bs div 3) + [0, 2, 3] ! (length bs mod 3)"
  by (induction bs rule: sextets_of.induct) (simp_all add: Let_def)

subsection \<open>atob after btoa\<close>

lemma length_alphabet: "length base64_alphabet = 64"
  by (simp add: base64_alphabet_def)

lemma distinct_alphabet: "distinct base64_alphabet"
  by (simp add: base64_alphabet_def)

lemma alphabet_plain:
  "c \<in> set base64_alphabet \<Longrightarrow> c \<noteq> CHR ''='' \<and> \<not> is_ascii_whitespace c"
  by (auto simp: base64_alphabet_def is_ascii_whitespace_def)

lemma position_of_nth:
  "distinct xs \<Longrightarrow> k < length xs \<Longrightarrow> length (takeWhile (\<lambda>x. x \<noteq> xs ! k) xs) = k"
proof (induction xs arbitrary: k)
  case Nil
  then show ?case by simp
next
  case (Cons x xs)
  show ?case
  proof (cases k)
    case 0
    then show ?thesis by simp
  next
    case (Suc j)
    with Cons.prems have j: "j < length xs" and "x \<notin> set xs" "distinct xs"
      by simp_all
    then have "x \<noteq> xs ! j"
      by (metis nth_mem)
    with Cons.IH [OF \<open>distinct xs\<close> j] Suc show ?thesis
      by simp
  qed
qed

lemma sextet_alphabet: "k < 64 \<Longrightarrow> sextet (base64_alphabet ! k) = k"
  unfolding sextet_def
  by (rule position_of_nth [OF distinct_alphabet]) (simp add: length_alphabet)

lemma strip_padding_append:
  assumes plain: "\<forall>c\<in>set core. c \<noteq> CHR ''=''"
    and p: "p \<le> 2"
    and len: "(length core + p) mod 4 = 0"
  shows "strip_padding (core @ replicate p (CHR ''='')) = core"
proof -
  have four: "length (core @ replicate p (CHR ''='')) mod 4 = 0"
    using len by simp
  from p consider "p = 0" | "p = 1" | "p = 2" by linarith
  then show ?thesis
  proof cases
    case 1
    show ?thesis
    proof (cases "rev core")
      case Nil
      with 1 show ?thesis by (simp add: strip_padding_def)
    next
      case (Cons c1 r1)
      then have "c1 \<in> set core" by (metis list.set_intros(1) set_rev)
      with plain have c1: "c1 \<noteq> CHR ''=''" by blast
      with 1 Cons four show ?thesis
        by (simp add: strip_padding_def split: list.splits)
    qed
  next
    case 2
    with len have "core \<noteq> []" by (cases core) simp_all
    then obtain c2 r where r: "rev core = c2 # r"
      by (cases "rev core") simp_all
    then have "c2 \<in> set core" by (metis list.set_intros(1) set_rev)
    with plain have c2: "c2 \<noteq> CHR ''=''" by blast
    have "rev (c2 # r) = core"
      using r by (metis rev_rev_ident)
    with 2 r c2 four show ?thesis
      by (simp add: strip_padding_def)
  next
    case 3
    have "rev (rev core) = core" by simp
    with 3 four show ?thesis
      by (simp add: strip_padding_def numeral_2_eq_2)
  qed
qed

lemma mod3_cases:
  obtains "(n::nat) mod 3 = 0" | "n mod 3 = Suc 0" | "n mod 3 = Suc (Suc 0)"
proof -
  have "n mod 3 < 3" by simp
  then consider "n mod 3 = 0" | "n mod 3 = Suc 0" | "n mod 3 = Suc (Suc 0)" by linarith
  then show thesis using that by cases
qed

lemma padding_le: "(3 - n mod 3) mod 3 \<le> (2::nat)"
  by (cases n rule: mod3_cases) simp_all

lemma length_btoa_total:
  "(length (sextets_of bs) + (3 - length bs mod 3) mod 3) mod 4 = 0"
  by (cases "length bs" rule: mod3_cases) (simp_all add: length_sextets_of)

lemma length_btoa_core:
  "length (sextets_of bs) mod 4 \<noteq> Suc 0"
proof -
  have "length (sextets_of bs) mod 4 = ([0, 2, 3] ! (length bs mod 3)) mod 4"
    by (simp only: length_sextets_of mod_mult_self4)
  then show ?thesis
    by (cases "length bs" rule: mod3_cases) simp_all
qed

lemma sextet_round: "\<forall>k\<in>set ks. k < 64 \<Longrightarrow> map sextet (map (\<lambda>k. base64_alphabet ! k) ks) = ks"
  by (induction ks) (simp_all add: sextet_alphabet)



lemma atob_btoa: "atob (btoa bs) = Inr (map (\<lambda>b. char_of (unat b)) bs)"
proof -
  let ?core = "map (\<lambda>k. base64_alphabet ! k) (sextets_of bs)"
  let ?p = "(3 - length bs mod 3) mod 3"
  have core: "\<forall>c\<in>set ?core. c \<in> set base64_alphabet"
    using sextets_of_bound [of bs] by (auto simp: length_alphabet)
  then have plain: "\<forall>c\<in>set ?core. c \<noteq> CHR ''=''"
    and nowhite: "\<forall>c\<in>set ?core. \<not> is_ascii_whitespace c"
    using alphabet_plain by blast+
  have pad: "\<not> is_ascii_whitespace (CHR ''='')"
    by (simp add: is_ascii_whitespace_def)
  have "filter (\<lambda>c. \<not> is_ascii_whitespace c) (btoa bs) = btoa bs"
    unfolding btoa_def using nowhite pad by (simp add: filter_id_conv)
  moreover have "strip_padding (btoa bs) = ?core"
    unfolding btoa_def
    by (rule strip_padding_append [OF plain padding_le]) (simp add: length_btoa_total)
  moreover have "length ?core mod 4 \<noteq> 1"
    using length_btoa_core [of bs] by simp
  moreover have "\<not> list_ex (\<lambda>c. c \<notin> set base64_alphabet) ?core"
    unfolding list_ex_iff using core by blast
  moreover have "decode_sextets (map sextet ?core) = map (\<lambda>b. char_of (unat b)) bs"
    by (simp only: sextet_round [OF sextets_of_bound] decode_sextets_of)
  ultimately show ?thesis
    by (simp only: atob_def Let_def if_False)
qed

subsection \<open>decodeBase64 and the samples\<close>

text \<open>
  The loop of \<open>decodeBase64\<close> copies the character codes into the new array, so the
  bytes of an encoded buffer come back; the 16-bit view of the bytes of a sample list
  is that list; and a sample read back differs from the encoded one by less than one
  step of \<open>1 / 32768\<close>.
\<close>

lemma decodeBase64_loop:
  "n \<le> length s \<Longrightarrow>
   fold (\<lambda>i bytes. set_u8 bytes i (charCodeAt s i)) [0..<n] (new_Uint8Array (length s)) =
   \<lparr>buffer = map (\<lambda>c. of_nat (of_char c)) (take n s) @ replicate (length s - n) 0,
    byteOffset = 0, length_u8 = length s\<rparr>"
proof (induction n)
  case 0
  then show ?case by (simp add: new_Uint8Array_def)
next
  case (Suc n)
  then have n: "n < length s" by simp
  let ?xs = "map (\<lambda>c. of_nat (of_char c) :: byte) (take n s)"
  have lx: "length ?xs = n" using n by simp
  have rest: "replicate (length s - n) (0::byte) = 0 # replicate (length s - Suc n) 0"
    using n by (metis Suc_diff_Suc replicate_Suc)
  have "(?xs @ 0 # replicate (length s - Suc n) 0)[n := of_nat (of_char (s ! n))] =
        ?xs @ of_nat (of_char (s ! n)) # replicate (length s - Suc n) 0"
    using lx by (metis list_update_length)
  moreover have "map (\<lambda>c. of_nat (of_char c) :: byte) (take (Suc n) s) = ?xs @ [of_nat (of_char (s ! n))]"
    using n by (simp add: take_Suc_conv_app_nth)
  ultimately show ?case
    using Suc.IH n by (simp add: set_u8_def charCodeAt_def rest)
qed

lemma byte_of_char_of: "of_nat (of_char (char_of (unat (b::byte)) :: char)) = b"
  by (simp add: of_char_of unat_byte_less)

lemma decodeBase64_btoa:
  "decodeBase64 (btoa bs) = Inr \<lparr>buffer = bs, byteOffset = 0, length_u8 = length bs\<rparr>"
proof -
  let ?s = "map (\<lambda>b. char_of (unat b)) bs"
  have "map (\<lambda>c. of_nat (of_char c)) ?s = bs"
    by (simp add: comp_def of_char_of unat_byte_less)
  with decodeBase64_loop [of "length ?s" ?s] show ?thesis
    by (simp add: decodeBase64_def atob_btoa Let_def)
qed

lemma int16_of_bytes: "push_bit 8 (ucast (ucast (drop_bit 8 s) :: byte)) OR ucast (ucast s :: byte) = (s::int16)"
  by (rule bit_word_eqI) (auto simp: bit_simps)

lemma int16_elements_pcm16_bytes: "int16_elements (pcm16_bytes ss) = ss"
  by (induction ss) (simp_all add: pcm16_bytes_def int16_of_bytes)

lemma length_pcm16_bytes: "length (pcm16_bytes ss) = 2 * length ss"
  by (induction ss) (simp_all add: pcm16_bytes_def)

lemma truncate_rat_near: "\<bar>rat_of_int (truncate_rat q) - q\<bar> < 1"
proof (cases "q < 0")
  case True
  then have t: "truncate_rat q = - \<lfloor>- q\<rfloor>" by (simp add: truncate_rat_def)
  have "rat_of_int \<lfloor>- q\<rfloor> \<le> - q" "- q < rat_of_int \<lfloor>- q\<rfloor> + 1"
    by linarith+
  then show ?thesis unfolding t by simp linarith
next
  case False
  then have t: "truncate_rat q = \<lfloor>q\<rfloor>" by (simp add: truncate_rat_def)
  have "rat_of_int \<lfloor>q\<rfloor> \<le> q" "q < rat_of_int \<lfloor>q\<rfloor> + 1"
    by linarith+
  then show ?thesis unfolding t by linarith
qed

lemma truncate_rat_range:
  assumes "- 32768 \<le> q" "q < 32768"
  shows "- 32768 \<le> truncate_rat q \<and> truncate_rat q \<le> 32767"
proof (cases "q < 0")
  case True
  then have t: "truncate_rat q = - \<lfloor>- q\<rfloor>" by (simp add: truncate_rat_def)
  from assms(1) have "- q \<le> 32768" by simp
  then have "\<lfloor>- q\<rfloor> \<le> 32768" by (simp add: floor_le_iff) 
  moreover from True have "0 \<le> \<lfloor>- q\<rfloor>" by simp
  ultimately show ?thesis unfolding t by linarith
next
  case False
  then have t: "truncate_rat q = \<lfloor>q\<rfloor>" by (simp add: truncate_rat_def)
  from assms(2) have "\<lfloor>q\<rfloor> < 32768" by (simp add: floor_less_iff)
  moreover from False have "0 \<le> \<lfloor>q\<rfloor>" by simp
  ultimately show ?thesis unfolding t by linarith
qed

lemma encodePCM16_near:
  assumes "- 1 \<le> x" "x < 1"
  shows "\<bar>rat_of_int (sint (encodePCM16 x)) / 32768 - x\<bar> < 1 / 32768"
proof -
  let ?q = "x * 32768"
  let ?t = "rat_of_int (truncate_rat ?q)"
  from assms have q: "- 32768 \<le> ?q" "?q < 32768" by simp_all
  from truncate_rat_range [OF q] have s: "sint (encodePCM16 x) = truncate_rat ?q"
    by (simp add: encodePCM16_def sint_in_range)
  have near: "\<bar>?t - ?q\<bar> < 1"
    by (rule truncate_rat_near)
  have "?t / 32768 - x = (?t - ?q) / 32768"
    by (simp add: diff_divide_distrib)
  then have "\<bar>?t / 32768 - x\<bar> = \<bar>?t - ?q\<bar> / 32768"
    by (simp only: abs_divide)
  also have "\<dots> < 1 / 32768"
    using near by (rule divide_strict_right_mono) simp
  finally show ?thesis
    by (simp only: s)
qed

text \<open>
  Claim C4. For samples \<open>xs\<close>, each at least \<open>-1\<close> and less than \<open>1\<close>, encoded as 16-bit
  PCM in base64, \<open>decodeBase64\<close> returns an array that \<open>decodeAudioData\<close> decodes with
  one channel into one channel of as many frames as there are samples, and frame \<open>i\<close>
  differs from \<open>xs ! i\<close> by at most \<open>1 / 32768\<close>. The audio context is assumed to accept a
  buffer of one channel and that many frames (fewer than \<open>2^32\<close>).
\<close>

theorem audio_round_trip:
  assumes range: "\<forall>x\<in>set xs. - 1 \<le> x \<and> x < 1"
    and sup: "supported ctx 1 (length xs) rate"
    and small: "length xs < 2 ^ 32"
  shows "\<exists>arr buf. decodeBase64 (encodeAudio xs) = Inr arr \<and>
           decodeAudioData arr ctx rate 1 = Some (Inr buf) \<and>
           length (channels buf) = 1 \<and>
           length (channels buf ! 0) = length xs \<and>
           (\<forall>i < length xs. \<exists>y. channels buf ! 0 ! i = Num y \<and> \<bar>y - xs ! i\<bar> \<le> 1 / 32768)"
proof -
  let ?ss = "map encodePCM16 xs"
  let ?arr = "\<lparr>buffer = pcm16_bytes ?ss, byteOffset = 0, length_u8 = length (pcm16_bytes ?ss)\<rparr>"
  have b64: "decodeBase64 (encodeAudio xs) = Inr ?arr"
    by (simp add: encodeAudio_def decodeBase64_btoa)
  have bytes: "length (buffer ?arr) = 2 * length xs"
    by (simp add: length_pcm16_bytes)
  have elements: "int16_elements (buffer ?arr) = ?ss"
    by (simp add: int16_elements_pcm16_bytes)
  have one: "(1::nat) \<le> 1" by simp
  from sup have sup1: "supported ctx 1 (length xs div 1) rate" by simp
  from small have small1: "length xs div 1 < 2 ^ 32" by simp
  from decodeAudioData_frames [OF one bytes sup1 small1] obtain buf where
    run: "decodeAudioData ?arr ctx rate 1 = Some (Inr buf)"
    and chans: "length (channels buf) = 1"
    and frames: "\<forall>c<1. length (channels buf ! c) = length xs div 1"
    and vals: "\<forall>c<1. \<forall>j < length xs div 1. channels buf ! c ! j =
        Num (rat_of_int (sint (int16_elements (buffer ?arr) ! (j * 1 + c))) / 32768)"
    by blast
  from frames have len: "length (channels buf ! 0) = length xs" by simp
  have near: "\<exists>y. channels buf ! 0 ! i = Num y \<and> \<bar>y - xs ! i\<bar> \<le> 1 / 32768"
    if i: "i < length xs" for i
  proof -
    from vals i have "channels buf ! 0 ! i =
        Num (rat_of_int (sint (int16_elements (buffer ?arr) ! i)) / 32768)"
      by simp
    with i have v: "channels buf ! 0 ! i = Num (rat_of_int (sint (encodePCM16 (xs ! i))) / 32768)"
      by (simp only: elements nth_map)
    from i range have "- 1 \<le> xs ! i" "xs ! i < 1"
      by (simp_all add: nth_mem)
    from encodePCM16_near [OF this]
    have "\<bar>rat_of_int (sint (encodePCM16 (xs ! i))) / 32768 - xs ! i\<bar> \<le> 1 / 32768"
      by (rule less_imp_le)
    with v show ?thesis by blast
  qed
  from b64 run chans len near show ?thesis by blast
qed

theorem audio_round_trip_witness:
  "\<exists>arr buf. decodeBase64 (encodeAudio [1 / 2, - 1, 3 / 65536]) = Inr arr \<and>
     decodeAudioData arr \<lparr>supported = (\<lambda>c n r. 1 \<le> c \<and> 1 \<le> n)\<rparr> 24000 1 = Some (Inr buf) \<and>
     length (channels buf ! 0) = 3 \<and>
     (\<exists>y. channels buf ! 0 ! 0 = Num y \<and> \<bar>y - 1 / 2\<bar> \<le> 1 / 32768) \<and>
     (\<exists>y. channels buf ! 0 ! 1 = Num y \<and> \<bar>y - (- 1)\<bar> \<le> 1 / 32768) \<and>
     (\<exists>y. channels buf ! 0 ! 2 = Num y \<and> \<bar>y - 3 / 65536\<bar> \<le> 1 / 32768)"
proof -
  let ?xs = "[1 / 2, - 1, 3 / 65536] :: rat list"
  let ?ctx = "\<lparr>supported = (\<lambda>c n (r::rat). (1::nat) \<le> c \<and> (1::nat) \<le> n)\<rparr>"
  have "\<forall>x\<in>set ?xs. - 1 \<le> x \<and> x < 1" "supported ?ctx 1 (length ?xs) 24000"
    "length ?xs < 2 ^ 32"
    by simp_all
  from audio_round_trip [OF this] obtain arr buf where
    r: "decodeBase64 (encodeAudio ?xs) = Inr arr"
      "decodeAudioData arr ?ctx 24000 1 = Some (Inr buf)"
      "length (channels buf ! 0) = length ?xs"
    and v: "\<forall>i < length ?xs. \<exists>y. channels buf ! 0 ! i = Num y \<and> \<bar>y - ?xs ! i\<bar> \<le> 1 / 32768"
    by blast
  from v [rule_format, of 0] v [rule_format, of 1] v [rule_format, of 2]
  have "(\<exists>y. channels buf ! 0 ! 0 = Num y \<and> \<bar>y - 1 / 2\<bar> \<le> 1 / 32768) \<and>
     (\<exists>y. channels buf ! 0 ! 1 = Num y \<and> \<bar>y - (- 1)\<bar> \<le> 1 / 32768) \<and>
     (\<exists>y. channels buf ! 0 ! 2 = Num y \<and> \<bar>y - 3 / 65536\<bar> \<le> 1 / 32768)"
    by simp
  with r show ?thesis by auto
qed

end
